theory Spec2Isabelle
  imports Complex_Main "HOL-Library.Sublist"
begin

section \<open>JavaScript values\<close>

text \<open>
  The services exchange plain JavaScript data: what \<^verbatim>\<open>JSON.parse\<close> returns, what the
  store keeps in a JSONB column and what the functions build as object literals.
  Numbers are modelled as exact rationals, \<open>NaN\<close> is a value of its own. An object is an
  association list in property order; a lookup takes the first binding of a key.
  Reading a property that is not there gives \<^verbatim>\<open>undefined\<close>, which is \<open>None\<close> here.
  Strings are lists of 8-bit characters (code units up to U+00FF).
\<close>

datatype js_value =
    Null
  | Bool bool
  | Num rat
  | NaN
  | Str string
  | Arr "js_value list"
  | Obj "(string \<times> js_value) list"

datatype js_error = TypeError string | Error string | SyntaxError string | Thrown js_value

text \<open>Truthiness, as \<^verbatim>\<open>&&\<close>, \<^verbatim>\<open>||\<close>, \<^verbatim>\<open>!\<close> and \<^verbatim>\<open>if\<close> test it.\<close>

fun truthy :: "js_value \<Rightarrow> bool" where
  "truthy Null = False"
| "truthy (Bool b) = b"
| "truthy (Num n) = (n \<noteq> 0)"
| "truthy NaN = False"
| "truthy (Str s) = (s \<noteq> [])"
| "truthy (Arr xs) = True"
| "truthy (Obj kvs) = True"

definition truthy_opt :: "js_value option \<Rightarrow> bool" where
  "truthy_opt v = (case v of None \<Rightarrow> False | Some x \<Rightarrow> truthy x)"

text \<open>\<^verbatim>\<open>typeof v === 'object'\<close>\<close>

fun typeof_object :: "js_value \<Rightarrow> bool" where
  "typeof_object Null = True"
| "typeof_object (Arr xs) = True"
| "typeof_object (Obj kvs) = True"
| "typeof_object v = False"

fun is_string :: "js_value \<Rightarrow> bool" where
  "is_string (Str s) = True"
| "is_string v = False"

text \<open>
  The conversion of a value to a string, as a template literal or \<^verbatim>\<open>Array.prototype.join\<close>
  performs it, raises a \<^verbatim>\<open>TypeError\<close> for an object whose own property \<open>toString\<close> hides
  the inherited method (a data value is not callable, and the inherited \<^verbatim>\<open>valueOf\<close> gives
  the object back), and for an array with such an element: an array is converted by joining
  the conversions of its elements, \<^verbatim>\<open>null\<close> giving the empty string. Every other value has
  a string.
\<close>

fun to_string_raises :: "js_value \<Rightarrow> bool" where
  "to_string_raises (Obj kvs) = (''toString'' \<in> fst ` set kvs)"
| "to_string_raises (Arr xs) = (\<exists>x \<in> set xs. to_string_raises x)"
| "to_string_raises v = False"

text \<open>
  \<open>js_prop v k\<close> is \<^verbatim>\<open>v[k]\<close> for a value other than \<^verbatim>\<open>null\<close> and a key \<open>k\<close> that is
  a data field name (none of the keys the services read is a method name of a string or an array):
  an object gives its own property, every other value gives \<^verbatim>\<open>undefined\<close>.
  On \<^verbatim>\<open>null\<close> the read raises, which \<open>get_prop\<close> makes explicit.
\<close>

fun js_prop :: "js_value \<Rightarrow> string \<Rightarrow> js_value option" where
  "js_prop (Obj kvs) k = map_of kvs k"
| "js_prop v k = None"

definition get_prop :: "js_value \<Rightarrow> string \<Rightarrow> js_error + js_value option" where
  "get_prop v k = (if v = Null then Inl (TypeError ''Cannot read properties of null'') else Inr (js_prop v k))"

text \<open>The names every object literal inherits from \<^verbatim>\<open>Object.prototype\<close>; each holds a
  function or an object, so a read through one of them is truthy and is not a number.\<close>

definition object_prototype_names :: "string list" where
  "object_prototype_names =
     [''constructor'', ''__defineGetter__'', ''__defineSetter__'', ''hasOwnProperty'',
      ''__lookupGetter__'', ''__lookupSetter__'', ''isPrototypeOf'', ''propertyIsEnumerable'',
      ''toString'', ''valueOf'', ''__proto__'', ''toLocaleString'']"

subsection \<open>Strings\<close>

text \<open>White space of \<^verbatim>\<open>String.prototype.trim\<close> and of \<^verbatim>\<open>\s\<close> within the 8-bit range.\<close>

definition is_space :: "char \<Rightarrow> bool" where
  "is_space c = (c \<in> set [CHR 0x09, CHR 0x0A, CHR 0x0B, CHR 0x0C, CHR 0x0D, CHR '' '', CHR 0xA0])"

definition trim :: "string \<Rightarrow> string" where
  "trim s = rev (dropWhile is_space (rev (dropWhile is_space s)))"

text \<open>The decimal digits and the number a string of digits denotes.\<close>

definition is_digit :: "char \<Rightarrow> bool" where
  "is_digit c = (48 \<le> (of_char c :: nat) \<and> (of_char c :: nat) \<le> 57)"

definition digits_value :: "string \<Rightarrow> nat" where
  "digits_value ds = foldl (\<lambda>a d. 10 * a + (of_char d - 48)) 0 ds"

subsection \<open>Property keys\<close>

text \<open>
  The own keys of an object are listed in a fixed order: first the keys that are array
  indices (\<^verbatim>\<open>0\<close>, or digits without a leading zero, denoting a number below
  \<open>2\<^sup>3\<^sup>2 - 1\<close>) in ascending numeric order, then every other key in the order of its creation.
  \<open>obj_put k v\<close> is \<^verbatim>\<open>o[k] = v\<close>: an existing key keeps its place and takes the value, a
  new key goes to its place in that order.
\<close>

definition array_index :: "string \<Rightarrow> int option" where
  "array_index k =
     (if k = [] then None
      else if \<not> list_all is_digit k then None
      else if 1 < length k \<and> hd k = CHR ''0'' then None
      else if 10 < length k then None
      else let n = foldl (\<lambda>a d. 10 * a + (of_char d - 48)) (0::int) k
           in if n < 4294967295 then Some n else None)"

definition key_before :: "string \<Rightarrow> string \<Rightarrow> bool" where
  "key_before k k' =
     (case array_index k of
        None \<Rightarrow> False
      | Some n \<Rightarrow> (case array_index k' of None \<Rightarrow> True | Some n' \<Rightarrow> n < n'))"

fun replace_key :: "string \<Rightarrow> js_value \<Rightarrow> (string \<times> js_value) list \<Rightarrow> (string \<times> js_value) list" where
  "replace_key k v [] = []"
| "replace_key k v ((k', v') # kvs) = (if k' = k then (k, v) # kvs else (k', v') # replace_key k v kvs)"

fun insert_key :: "string \<Rightarrow> js_value \<Rightarrow> (string \<times> js_value) list \<Rightarrow> (string \<times> js_value) list" where
  "insert_key k v [] = [(k, v)]"
| "insert_key k v ((k', v') # kvs) =
     (if key_before k k' then (k, v) # (k', v') # kvs else (k', v') # insert_key k v kvs)"

definition obj_put :: "string \<Rightarrow> js_value \<Rightarrow> (string \<times> js_value) list \<Rightarrow> (string \<times> js_value) list" where
  "obj_put k v kvs = (if k \<in> fst ` set kvs then replace_key k v kvs else insert_key k v kvs)"

section \<open>cacheService: the enrichment cache\<close>

subsection \<open>calculateConfidenceScore\<close>

definition requiredFields :: "string list" where
  "requiredFields = [''name'', ''country'', ''city'', ''domain'', ''tuition_estimate'', ''acceptance_rate'', ''rank'']"

definition sourceScores :: "(string \<times> rat) list" where
  "sourceScores = [(''VERIFIED'', 1), (''MANUAL'', 85/100), (''GEMINI'', 75/100), (''LLAMA'', 65/100), (''AI'', 70/100)]"

text \<open>
  \<^verbatim>\<open>sourceScores[source] || 0.5\<close>. The five own entries are non-zero numbers. A source that
  is none of them but is an inherited name reads a function (or the prototype object), which
  is truthy, so the \<^verbatim>\<open>|| 0.5\<close> is not taken: \<open>None\<close> stands for that non-number.
\<close>

definition sourceScore :: "string \<Rightarrow> rat option" where
  "sourceScore source =
     (case map_of sourceScores source of
        Some x \<Rightarrow> Some x
      | None \<Rightarrow> if source \<in> set object_prototype_names then None else Some (1/2))"

definition field_present :: "js_value option \<Rightarrow> bool" where
  "field_present v = (truthy_opt v \<and> v \<noteq> Some Null \<and> v \<noteq> Some (Str []) \<and> v \<noteq> Some (Num 0))"

definition presentFields :: "js_value \<Rightarrow> nat" where
  "presentFields enrichedData =
     length (filter (\<lambda>field. field_present (js_prop enrichedData field)) requiredFields)"

text \<open>\<^verbatim>\<open>Math.round\<close>: the nearest integer, a tie going up.\<close>

definition Math_round :: "rat \<Rightarrow> int" where
  "Math_round x = \<lfloor>x + 1/2\<rfloor>"

text \<open>
  The arithmetic is exact here; the program computes in IEEE doubles, whose rounding of the
  intermediate products can move a sum that is an exact tie (such as 32.5) below the tie.
  A multiplication with the non-number gives \<^verbatim>\<open>NaN\<close>, which \<^verbatim>\<open>Math.round\<close>,
  \<^verbatim>\<open>Math.max\<close> and \<^verbatim>\<open>Math.min\<close> all hand on.
\<close>

definition calculateConfidenceScore :: "js_value \<Rightarrow> string \<Rightarrow> bool \<Rightarrow> js_error + js_value" where
  "calculateConfidenceScore enrichedData source isVerified =
     (if enrichedData = Null then Inl (TypeError ''Cannot read properties of null'')
      else
        let completeness = rat_of_nat (presentFields enrichedData) / rat_of_nat (length requiredFields);
            verifiedScore = (if isVerified then 1 else 0);
            recencyScore = 1
        in case sourceScore source of
             None \<Rightarrow> Inr NaN
           | Some s \<Rightarrow>
               let confidence = completeness * (4/10) + s * (3/10) + verifiedScore * (2/10) + recencyScore * (1/10)
               in Inr (Num (min 1 (max 0 (rat_of_int (Math_round (confidence * 100)) / 100)))))"

subsection \<open>The enrichment_cache table\<close>

text \<open>
  One row of \<^verbatim>\<open>enrichment_cache\<close> (migration 003). Timestamps are milliseconds since
  the epoch. A \<^verbatim>\<open>NaN\<close> score reaches the store as SQL NULL and is read back by
  \<^verbatim>\<open>parseFloat\<close> as \<^verbatim>\<open>NaN\<close>; the row keeps it as \<open>NaN\<close>.
  The table is the list of its rows; the store is taken to answer every request.
\<close>

record cache_row =
  row_id :: nat
  university_name :: string
  country :: string
  enriched_data :: js_value
  confidence_score :: js_value
  source :: string
  created_at :: int
  last_accessed_at :: int
  access_count :: int
  is_verified :: bool
  verified_by_user_id :: "nat option"
  verified_at :: "int option"

definition CACHE_TTL_VERIFIED :: int where
  "CACHE_TTL_VERIFIED = 30 * 24 * 60 * 60 * 1000"

definition CACHE_TTL_AI_ENRICHED :: int where
  "CACHE_TTL_AI_ENRICHED = 7 * 24 * 60 * 60 * 1000"

definition CACHE_TTL_MANUAL :: int where
  "CACHE_TTL_MANUAL = 14 * 24 * 60 * 60 * 1000"

text \<open>\<^verbatim>\<open>.eq('university_name', n).eq('country', c)\<close>: exact, case-sensitive equality.\<close>

definition key_matches :: "string \<Rightarrow> string \<Rightarrow> cache_row \<Rightarrow> bool" where
  "key_matches n c r = (university_name r = n \<and> country r = c)"

text \<open>\<^verbatim>\<open>.single()\<close>: the row when exactly one matches, an error otherwise.\<close>

definition single :: "'a list \<Rightarrow> 'a option" where
  "single rows = (case rows of [r] \<Rightarrow> Some r | _ \<Rightarrow> None)"

text \<open>The \<^verbatim>\<open>UNIQUE(university_name, country)\<close> constraint of the table.\<close>

definition unique_keys :: "cache_row list \<Rightarrow> bool" where
  "unique_keys tbl = distinct (map (\<lambda>r. (university_name r, country r)) tbl)"

text \<open>
  \<open>updateCacheAccess\<close> asks the store to stamp the row and to set its counter to the result
  of the remote procedure \<^verbatim>\<open>increment\<close>, which is not part of the sources: \<open>bump\<close> is what
  the store makes of the request. Its failure is caught and only logged.
\<close>

definition updateCacheAccess :: "(cache_row \<Rightarrow> cache_row) \<Rightarrow> nat \<Rightarrow> cache_row list \<Rightarrow> cache_row list" where
  "updateCacheAccess bump cacheId tbl = map (\<lambda>r. if row_id r = cacheId then bump r else r) tbl"

definition cache_ttl :: "cache_row \<Rightarrow> int" where
  "cache_ttl data =
     (if is_verified data then CACHE_TTL_VERIFIED
      else if source data = ''MANUAL'' then CACHE_TTL_MANUAL
      else CACHE_TTL_AI_ENRICHED)"

text \<open>\<^verbatim>\<open>{...o}\<close>: the own enumerable properties of a value; an object gives its bindings,
  a string or an array its indexed elements, anything else nothing.\<close>

fun nat_digits :: "nat \<Rightarrow> nat \<Rightarrow> string" where
  "nat_digits 0 n = []"
| "nat_digits (Suc fuel) n =
     (if n < 10 then [char_of (48 + n)] else nat_digits fuel (n div 10) @ [char_of (48 + n mod 10)])"

definition index_key :: "nat \<Rightarrow> string" where
  "index_key n = nat_digits (Suc n) n"

fun spread :: "js_value \<Rightarrow> (string \<times> js_value) list" where
  "spread (Obj kvs) = kvs"
| "spread (Arr xs) = map (\<lambda>i. (index_key i, xs ! i)) [0..<length xs]"
| "spread (Str s) = map (\<lambda>i. (index_key i, Str [s ! i])) [0..<length s]"
| "spread v = []"

definition cache_meta :: "cache_row \<Rightarrow> js_value" where
  "cache_meta data = Obj
     [(''cached'', Bool True),
      (''confidence_score'', confidence_score data),
      (''source'', Str (source data)),
      (''is_verified'', Bool (is_verified data)),
      (''created_at'', Num (rat_of_int (created_at data))),
      (''access_count'', Num (rat_of_int (access_count data + 1)))]"

definition getCachedEnrichment ::
  "(cache_row \<Rightarrow> cache_row) \<Rightarrow> int \<Rightarrow> string \<Rightarrow> string \<Rightarrow> cache_row list \<Rightarrow> js_value option \<times> cache_row list" where
  "getCachedEnrichment bump now name cntry tbl =
     (case single (filter (key_matches (trim name) (trim cntry)) tbl) of
        None \<Rightarrow> (None, tbl)
      | Some data \<Rightarrow>
          let ttl = cache_ttl data;
              cacheAge = now - created_at data
          in if cacheAge > ttl then (None, tbl)
             else (Some (Obj (obj_put ''_cache_meta'' (cache_meta data) (spread (enriched_data data)))),
                   updateCacheAccess bump (row_id data) tbl))"

text \<open>
  \<^verbatim>\<open>.upsert(cacheEntry, { onConflict: 'university_name,country' })\<close>: a row with the
  entry's key takes the entry's nine columns and keeps the columns the entry does not name
  (\<open>id\<close>, \<open>verified_by_user_id\<close>, \<open>verified_at\<close>); without such a row the entry is inserted
  under a new id and the column defaults.
\<close>

definition fresh_id :: "cache_row list \<Rightarrow> nat" where
  "fresh_id tbl = Suc (fold max (map row_id tbl) 0)"

definition write_entry :: "cache_row \<Rightarrow> cache_row \<Rightarrow> cache_row" where
  "write_entry e r = e\<lparr>row_id := row_id r, verified_by_user_id := verified_by_user_id r, verified_at := verified_at r\<rparr>"

definition upsert :: "cache_row \<Rightarrow> cache_row list \<Rightarrow> cache_row list" where
  "upsert e tbl =
     (if \<exists>r \<in> set tbl. key_matches (university_name e) (country e) r
      then map (\<lambda>r. if key_matches (university_name e) (country e) r then write_entry e r else r) tbl
      else tbl @ [e\<lparr>row_id := fresh_id tbl, verified_by_user_id := None, verified_at := None\<rparr>])"

definition cacheEntry :: "int \<Rightarrow> string \<Rightarrow> string \<Rightarrow> js_value \<Rightarrow> js_value \<Rightarrow> string \<Rightarrow> cache_row" where
  "cacheEntry now name cntry enrichedData confidence src =
     \<lparr>row_id = 0,
      university_name = trim name,
      country = trim cntry,
      enriched_data = enrichedData,
      confidence_score = confidence,
      source = src,
      created_at = now,
      last_accessed_at = now,
      access_count = 1,
      is_verified = False,
      verified_by_user_id = None,
      verified_at = None\<rparr>"

text \<open>The result is the written row, or \<^verbatim>\<open>null\<close> when the score computation raised
  (the exception is caught and nothing is written).\<close>

definition setCachedEnrichment ::
  "int \<Rightarrow> string \<Rightarrow> string \<Rightarrow> js_value \<Rightarrow> string \<Rightarrow> cache_row list \<Rightarrow> cache_row option \<times> cache_row list" where
  "setCachedEnrichment now name cntry enrichedData src tbl =
     (case calculateConfidenceScore enrichedData src False of
        Inl err \<Rightarrow> (None, tbl)
      | Inr confidence \<Rightarrow>
          let tbl' = upsert (cacheEntry now name cntry enrichedData confidence src) tbl
          in (single (filter (key_matches (trim name) (trim cntry)) tbl'), tbl'))"

text \<open>\<^verbatim>\<open>.delete().eq('is_verified', false).lt('created_at', cutoffDate)\<close>\<close>

definition clearExpiredCache :: "int \<Rightarrow> cache_row list \<Rightarrow> cache_row list" where
  "clearExpiredCache now tbl =
     (let cutoffDate = now - CACHE_TTL_VERIFIED
      in filter (\<lambda>r. \<not> (is_verified r = False \<and> created_at r < cutoffDate)) tbl)"

subsection \<open>Time spans and sample rows\<close>

definition days :: "int \<Rightarrow> int" where
  "days n = n * (24 * 60 * 60 * 1000)"

definition sample_row :: "nat \<Rightarrow> string \<Rightarrow> string \<Rightarrow> string \<Rightarrow> int \<Rightarrow> bool \<Rightarrow> cache_row" where
  "sample_row i n c src t v =
     \<lparr>row_id = i, university_name = n, country = c, enriched_data = Obj [(''name'', Str n)],
      confidence_score = Num (55/100), source = src, created_at = t, last_accessed_at = t,
      access_count = 1, is_verified = v, verified_by_user_id = None, verified_at = None\<rparr>"

text \<open>The weighted sum of \<open>calculateConfidenceScore\<close> for \<open>k\<close> present fields, source
  score \<open>s\<close> and verification flag \<open>v\<close>.\<close>

definition weighted :: "nat \<Rightarrow> rat \<Rightarrow> bool \<Rightarrow> rat" where
  "weighted k s v = rat_of_nat k / 7 * (4/10) + s * (3/10) + (if v then 1 else 0) * (2/10) + 1 * (1/10)"

subsection \<open>Regular-expression helpers\<close>

text \<open>\<^verbatim>\<open>\n?\<close> at the head of a string.\<close>

fun drop_newline :: "string \<Rightarrow> string" where
  "drop_newline [] = []"
| "drop_newline (c # cs) = (if c = CHR 0x0A then cs else c # cs)"

text \<open>\<^verbatim>\<open>s.replace(/pat\n?/g, '')\<close> for a literal, non-empty \<open>pat\<close>: scanning from the left,
  every occurrence of \<open>pat\<close> goes, with the newline that follows it if there is one.\<close>

function strip_fence :: "string \<Rightarrow> string \<Rightarrow> string" where
  "strip_fence pat [] = []"
| "strip_fence pat (c # cs) =
     (if pat \<noteq> [] \<and> prefix pat (c # cs)
      then strip_fence pat (drop_newline (drop (length pat) (c # cs)))
      else c # strip_fence pat cs)"
  by pat_completeness auto
termination
proof (relation "measure (\<lambda>(pat, s). length s)")
  show "wf (measure (\<lambda>(pat, s). length s))" by simp
next
  fix pat :: string and c cs
  assume a: "pat \<noteq> [] \<and> prefix pat (c # cs)"
  have "length (drop_newline xs) \<le> length xs" for xs by (cases xs) auto
  then have "length (drop_newline (drop (length pat) (c # cs))) \<le> length (drop (length pat) (c # cs))" .
  moreover have "length (drop (length pat) (c # cs)) < length (c # cs)" using a by (cases pat) auto
  ultimately show "((pat, drop_newline (drop (length pat) (c # cs))), (pat, c # cs)) \<in> measure (\<lambda>(pat, s). length s)"
    by simp
next
  fix pat :: string and c cs
  show "((pat, cs), (pat, c # cs)) \<in> measure (\<lambda>(pat, s). length s)" by simp
qed

text \<open>\<^verbatim>\<open>s.match(/\{[\s\S]*\}/)\<close> and \<^verbatim>\<open>s.match(/\[[\s\S]*\]/)\<close>: from the first opening
  character to the last closing character after it.\<close>

definition match_delimited :: "char \<Rightarrow> char \<Rightarrow> string \<Rightarrow> string option" where
  "match_delimited opening closing s =
     (let t = dropWhile (\<lambda>c. c \<noteq> opening) s
      in if t \<noteq> [] \<and> closing \<in> set (tl t)
         then Some (rev (dropWhile (\<lambda>c. c \<noteq> closing) (rev t)))
         else None)"

text \<open>\<^verbatim>\<open>s.replace(/,\s*}/g, '}')\<close> and \<^verbatim>\<open>s.replace(/,\s*]/g, ']')\<close>.\<close>

function remove_comma_before :: "char \<Rightarrow> string \<Rightarrow> string" where
  "remove_comma_before closing [] = []"
| "remove_comma_before closing (c # cs) =
     (if c = CHR '','' \<and> dropWhile is_space cs \<noteq> [] \<and> hd (dropWhile is_space cs) = closing
      then closing # remove_comma_before closing (tl (dropWhile is_space cs))
      else c # remove_comma_before closing cs)"
  by pat_completeness auto
termination
proof (relation "measure (\<lambda>(closing, s). length s)")
  show "wf (measure (\<lambda>(closing, s). length s))" by simp
next
  fix closing c :: char and cs
  assume "c = CHR '','' \<and> dropWhile is_space cs \<noteq> [] \<and> hd (dropWhile is_space cs) = closing"
  have "length (tl (dropWhile is_space cs)) \<le> length (dropWhile is_space cs)" by simp
  also have "\<dots> \<le> length cs" by (rule length_dropWhile_le)
  finally show "((closing, tl (dropWhile is_space cs)), (closing, c # cs)) \<in> measure (\<lambda>(closing, s). length s)"
    by simp
next
  fix closing c :: char and cs
  show "((closing, cs), (closing, c # cs)) \<in> measure (\<lambda>(closing, s). length s)" by simp
qed

definition clean_markdown :: "string \<Rightarrow> string" where
  "clean_markdown text = trim (strip_fence ''```'' (strip_fence ''```json'' text))"


section \<open>aiService: providers and the router\<close>

text \<open>
  What lies outside the repository is a parameter: the two key pools read from the environment
  at start-up, the random ranks by which \<^verbatim>\<open>sort(() => 0.5 - Math.random())\<close> reorders a pool
  (one ranking for each model tried), the two vendors' endpoints, which answer a request with a text
  (\<open>Inr\<close>) or reject it with an \<^verbatim>\<open>Error\<close> carrying a message (\<open>Inl\<close>), and \<^verbatim>\<open>JSON.parse\<close>.
  The name of a Gemini model comes from the caller's options and can be any value.
\<close>

type_synonym message = "string \<times> string"

record llm_env =
  GEMINI_API_KEYS :: "string list"
  GROQ_API_KEYS :: "string list"
  random_rank :: "js_value \<Rightarrow> string \<Rightarrow> nat"
  gemini_generateContent :: "string \<Rightarrow> js_value \<Rightarrow> string \<Rightarrow> string + string"
  groq_chat_completions :: "string \<Rightarrow> string \<Rightarrow> message list \<Rightarrow> string + string"
  JSON_parse :: "string \<Rightarrow> js_error + js_value"

datatype provider = GEMINI | GROQ

text \<open>What one call does towards the vendors, in order: entering a provider's client, and each
  request with the model and the key it uses.\<close>

datatype event = Invoke provider | Request provider js_value string

text \<open>A JSON text that begins with \<^verbatim>\<open>{\<close> denotes an object: \<^verbatim>\<open>JSON.parse\<close> of the matched
  substring gives an object or throws.\<close>

definition parse_object :: "llm_env \<Rightarrow> string \<Rightarrow> js_error + (string \<times> js_value) list" where
  "parse_object env s =
     (case JSON_parse env s of
        Inl e \<Rightarrow> Inl e
      | Inr (Obj kvs) \<Rightarrow> Inr kvs
      | Inr v \<Rightarrow> Inl (SyntaxError ''Unexpected token''))"

definition shuffled :: "llm_env \<Rightarrow> js_value \<Rightarrow> string list \<Rightarrow> string list" where
  "shuffled env modelName keys = sort_key (random_rank env modelName) keys"

definition join_lines :: "string list \<Rightarrow> string" where
  "join_lines xs = concat (case xs of [] \<Rightarrow> [] | y # ys \<Rightarrow> y # map (\<lambda>z. CHR 0x0A # z) ys)"

text \<open>The body of the \<^verbatim>\<open>try\<close> in \<open>callGemini\<close> for one model and one key.\<close>

definition gemini_attempt :: "llm_env \<Rightarrow> message list \<Rightarrow> string \<Rightarrow> js_value \<Rightarrow> string \<Rightarrow> js_error + js_value" where
  "gemini_attempt env messages systemPrompt modelName apiKey =
     (let fullPrompt = systemPrompt @ [CHR 0x0A, CHR 0x0A] @ ''User: '' @ join_lines (map snd messages)
      in case gemini_generateContent env apiKey modelName fullPrompt of
           Inl msg \<Rightarrow> Inl (Error msg)
         | Inr text \<Rightarrow>
             if text = [] then Inl (Error ''Empty response from Gemini'')
             else
               let textOnly = Obj [(''text'', Str text), (''actions'', Arr []),
                                   (''_aiSource'', Str ''GEMINI''), (''_model'', modelName)]
               in case match_delimited CHR ''{'' CHR ''}'' (clean_markdown text) of
                    None \<Rightarrow> Inr textOnly
                  | Some objectMatch \<Rightarrow>
                      (case parse_object env objectMatch of
                         Inl parseError \<Rightarrow> Inr textOnly
                       | Inr json \<Rightarrow>
                           Inr (Obj (obj_put ''_model'' modelName
                                      (obj_put ''_aiSource'' (Str ''GEMINI'') json)))))"

text \<open>The loop over the keys: the first success returns, a failure is remembered in
  \<open>lastError\<close> and the next key is tried.\<close>

fun gemini_keys ::
  "llm_env \<Rightarrow> message list \<Rightarrow> string \<Rightarrow> js_value \<Rightarrow> string list \<Rightarrow> js_error option
     \<Rightarrow> (js_error option + js_value) \<times> event list" where
  "gemini_keys env messages systemPrompt modelName [] lastError = (Inl lastError, [])"
| "gemini_keys env messages systemPrompt modelName (apiKey # keys) lastError =
     (case gemini_attempt env messages systemPrompt modelName apiKey of
        Inr response \<Rightarrow> (Inr response, [Request GEMINI modelName apiKey])
      | Inl error \<Rightarrow>
          (case gemini_keys env messages systemPrompt modelName keys (Some error) of
             (r, evs) \<Rightarrow> (r, Request GEMINI modelName apiKey # evs)))"

text \<open>The loop over the models. Its first statement logs the model's name in a template
  literal, outside the \<^verbatim>\<open>try\<close> of the key loop: a name that has no string leaves the loop,
  and \<open>callGemini\<close>, by the \<^verbatim>\<open>TypeError\<close> of the conversion, which \<open>Inl\<close> then carries.\<close>

fun gemini_models ::
  "llm_env \<Rightarrow> message list \<Rightarrow> string \<Rightarrow> js_value list \<Rightarrow> js_error option
     \<Rightarrow> (js_error option + js_value) \<times> event list" where
  "gemini_models env messages systemPrompt [] lastError = (Inl lastError, [])"
| "gemini_models env messages systemPrompt (modelName # models) lastError =
     (if to_string_raises modelName
      then (Inl (Some (TypeError ''Cannot convert object to primitive value'')), [])
      else
        case gemini_keys env messages systemPrompt modelName
               (shuffled env modelName (GEMINI_API_KEYS env)) lastError of
          (Inr response, evs) \<Rightarrow> (Inr response, evs)
        | (Inl lastError', evs) \<Rightarrow>
            (case gemini_models env messages systemPrompt models lastError' of
               (r, evs') \<Rightarrow> (r, evs @ evs')))"

text \<open>\<^verbatim>\<open>throw lastError\<close>: \<open>lastError\<close> starts as \<^verbatim>\<open>null\<close>.\<close>

definition throw_last :: "js_error option \<Rightarrow> js_error" where
  "throw_last lastError = (case lastError of None \<Rightarrow> Thrown Null | Some e \<Rightarrow> e)"

text \<open>The third parameter has a default, which stands in for \<^verbatim>\<open>undefined\<close> (\<open>None\<close>) only.\<close>

definition callGemini ::
  "llm_env \<Rightarrow> message list \<Rightarrow> string \<Rightarrow> js_value option \<Rightarrow> (js_error + js_value) \<times> event list" where
  "callGemini env messages systemPrompt preferredModelArg =
     (let preferredModel = (case preferredModelArg of None \<Rightarrow> Str ''gemini-2.5-flash'' | Some m \<Rightarrow> m)
      in if GEMINI_API_KEYS env = [] then (Inl (Error ''GEMINI_API_KEYS not configured''), [Invoke GEMINI])
         else
           let fallbackModel = (if preferredModel = Str ''gemini-2.5-flash'' then Str ''gemini-2.5-flash-lite''
                                else Str ''gemini-2.5-flash'');
               modelsToTry = [preferredModel, fallbackModel]
           in case gemini_models env messages systemPrompt modelsToTry None of
                (Inr response, evs) \<Rightarrow> (Inr response, Invoke GEMINI # evs)
              | (Inl lastError, evs) \<Rightarrow> (Inl (throw_last lastError), Invoke GEMINI # evs))"

text \<open>The body of the \<^verbatim>\<open>try\<close> in \<open>callGroq\<close> for one key.\<close>

definition groq_attempt :: "llm_env \<Rightarrow> message list \<Rightarrow> string \<Rightarrow> string \<Rightarrow> js_error + js_value" where
  "groq_attempt env messages systemPrompt apiKey =
     (case groq_chat_completions env apiKey systemPrompt messages of
        Inl msg \<Rightarrow> Inl (Error msg)
      | Inr text \<Rightarrow>
          let textOnly = Obj [(''text'', Str text), (''actions'', Arr []), (''_aiSource'', Str ''LLAMA'')]
          in case match_delimited CHR ''{'' CHR ''}'' (clean_markdown text) of
               None \<Rightarrow> Inr textOnly
             | Some objectMatch \<Rightarrow>
                 (case parse_object env objectMatch of
                    Inl parseError \<Rightarrow> Inr textOnly
                  | Inr json \<Rightarrow>
                      let json' =
                            (if \<not> truthy_opt (map_of json ''text'') \<and> truthy_opt (map_of json ''actions'')
                             then obj_put ''text'' (Str ''I've updated your profile.'') json
                             else if \<not> truthy_opt (map_of json ''text'')
                             then obj_put ''text'' (Str ''I heard you.'') json
                             else json)
                      in Inr (Obj (obj_put ''_aiSource'' (Str ''LLAMA'') json'))))"

fun groq_keys ::
  "llm_env \<Rightarrow> message list \<Rightarrow> string \<Rightarrow> string list \<Rightarrow> js_error option
     \<Rightarrow> (js_error option + js_value) \<times> event list" where
  "groq_keys env messages systemPrompt [] lastError = (Inl lastError, [])"
| "groq_keys env messages systemPrompt (apiKey # keys) lastError =
     (case groq_attempt env messages systemPrompt apiKey of
        Inr response \<Rightarrow> (Inr response, [Request GROQ (Str ''llama-3.3-70b-versatile'') apiKey])
      | Inl error \<Rightarrow>
          (case groq_keys env messages systemPrompt keys (Some error) of
             (r, evs) \<Rightarrow> (r, Request GROQ (Str ''llama-3.3-70b-versatile'') apiKey # evs)))"

definition callGroq ::
  "llm_env \<Rightarrow> message list \<Rightarrow> string \<Rightarrow> (js_error + js_value) \<times> event list" where
  "callGroq env messages systemPrompt =
     (if GROQ_API_KEYS env = [] then (Inl (Error ''GROQ_API_KEYS not configured''), [Invoke GROQ])
      else
        case groq_keys env messages systemPrompt
               (shuffled env (Str ''llama-3.3-70b-versatile'') (GROQ_API_KEYS env)) None of
          (Inr response, evs) \<Rightarrow> (Inr response, Invoke GROQ # evs)
        | (Inl lastError, evs) \<Rightarrow> (Inl (throw_last lastError), Invoke GROQ # evs))"

text \<open>
  The third argument of \<open>getLLMResponse\<close> is any value: the legacy provider string, an
  object whose \<open>provider\<close> and \<open>model\<close> may each be missing or hold anything, or something
  else. \<open>None\<close> is the omitted argument (\<^verbatim>\<open>undefined\<close>), for which alone the default
  parameter stands in.
\<close>

definition default_options :: js_value where
  "default_options = Obj [(''provider'', Str ''GROQ''), (''model'', Str ''gemini-2.5-flash'')]"

definition unavailable :: js_value where
  "unavailable = Obj
     [(''text'', Str ''I'm having trouble connecting to my AI services. Please check your connection.''),
      (''error'', Bool True)]"

text \<open>Reading \<^verbatim>\<open>.message\<close> of the caught value for the log raises when the value is
  \<^verbatim>\<open>null\<close>; then the handler is left by that exception.\<close>

definition message_of :: "js_error \<Rightarrow> js_error + unit" where
  "message_of e = (case e of Thrown Null \<Rightarrow> Inl (TypeError ''Cannot read properties of null'') | _ \<Rightarrow> Inr ())"

text \<open>\<^verbatim>\<open>typeof options === 'string' ? options : (options.provider || 'GROQ')\<close>: reading
  \<open>provider\<close> of \<^verbatim>\<open>null\<close> raises; the statement stands before every \<^verbatim>\<open>try\<close>.\<close>

definition options_provider :: "js_value \<Rightarrow> js_error + js_value" where
  "options_provider options =
     (case options of
        Str s \<Rightarrow> Inr (Str s)
      | Null \<Rightarrow> Inl (TypeError ''Cannot read properties of null (reading 'provider')'')
      | other \<Rightarrow>
          Inr (case js_prop options ''provider'' of
                 None \<Rightarrow> Str ''GROQ''
               | Some p \<Rightarrow> if truthy p then p else Str ''GROQ''))"

text \<open>\<^verbatim>\<open>typeof options === 'object' ? options.model : 'gemini-2.5-flash'\<close>; a missing
  \<open>model\<close> is \<^verbatim>\<open>undefined\<close>, for which \<open>callGemini\<close> takes its own default.\<close>

definition options_model :: "js_value \<Rightarrow> js_value option" where
  "options_model options =
     (if typeof_object options then js_prop options ''model'' else Some (Str ''gemini-2.5-flash''))"

definition getLLMResponse ::
  "llm_env \<Rightarrow> message list \<Rightarrow> string \<Rightarrow> js_value option \<Rightarrow> (js_error + js_value) \<times> event list" where
  "getLLMResponse env messages systemPrompt optionsArg =
     (let options = (case optionsArg of None \<Rightarrow> default_options | Some opts \<Rightarrow> opts)
      in case options_provider options of
           Inl raised \<Rightarrow> (Inl raised, [])
         | Inr provider \<Rightarrow>
             let preferredModel = options_model options;
                 tryGemini = callGemini env messages systemPrompt preferredModel;
                 tryGroq = callGroq env messages systemPrompt
             in if provider = Str ''GEMINI'' then
                  (case tryGemini of
                     (Inr response, evs) \<Rightarrow> (Inr response, evs)
                   | (Inl geminiError, evs) \<Rightarrow>
                       (case message_of geminiError of
                          Inl raised \<Rightarrow> (Inl raised, evs)
                        | Inr u \<Rightarrow>
                            (case tryGroq of
                               (Inr response, evs') \<Rightarrow> (Inr response, evs @ evs')
                             | (Inl groqError, evs') \<Rightarrow> (Inr unavailable, evs @ evs'))))
                else
                  (case tryGroq of
                     (Inr response, evs) \<Rightarrow> (Inr response, evs)
                   | (Inl groqError, evs) \<Rightarrow>
                       (case message_of groqError of
                          Inl raised \<Rightarrow> (Inl raised, evs)
                        | Inr u \<Rightarrow>
                            (case tryGemini of
                               (Inr response, evs') \<Rightarrow> (Inr response, evs @ evs')
                             | (Inl geminiError, evs') \<Rightarrow> (Inr unavailable, evs @ evs')))))"

text \<open>The providers entered by a call, in order.\<close>

definition providers_invoked :: "event list \<Rightarrow> provider list" where
  "providers_invoked evs = concat (map (\<lambda>e. case e of Invoke p \<Rightarrow> [p] | Request p m k \<Rightarrow> []) evs)"

definition preferred_provider :: "js_value option \<Rightarrow> provider" where
  "preferred_provider optionsArg =
     (if options_provider (case optionsArg of None \<Rightarrow> default_options | Some opts \<Rightarrow> opts) = Inr (Str ''GEMINI'')
      then GEMINI else GROQ)"

definition preferred_model :: "js_value option \<Rightarrow> js_value option" where
  "preferred_model optionsArg =
     options_model (case optionsArg of None \<Rightarrow> default_options | Some opts \<Rightarrow> opts)"

fun other_provider :: "provider \<Rightarrow> provider" where
  "other_provider GEMINI = GROQ"
| "other_provider GROQ = GEMINI"

text \<open>A caught value that has a \<^verbatim>\<open>message\<close>: anything thrown but \<^verbatim>\<open>null\<close>.\<close>

definition has_message :: "js_error option \<Rightarrow> bool" where
  "has_message le = (case le of None \<Rightarrow> False | Some e \<Rightarrow> message_of e = Inr ())"

text \<open>An environment in which every key of either vendor is refused.\<close>

definition all_down :: llm_env where
  "all_down =
     \<lparr>GEMINI_API_KEYS = [''g-key-1'', ''g-key-2''],
      GROQ_API_KEYS = [''q-key-1''],
      random_rank = (\<lambda>m k. length k),
      gemini_generateContent = (\<lambda>k m p. Inl ''429 Too Many Requests''),
      groq_chat_completions = (\<lambda>k sp ms. Inl ''Request failed with status code 401''),
      JSON_parse = (\<lambda>s. Inl (SyntaxError ''Unexpected token''))\<rparr>"

section \<open>discoveryAnalysisService\<close>

text \<open>
  The store as this service sees it: a user's profile row, the university rows, and the
  table \<^verbatim>\<open>user_university_analyses\<close> with its unique key (user, university). A timestamp
  is in milliseconds. The store is taken to answer every request.
\<close>

record university =
  uni_id :: string
  uni_name :: string
  uni_country :: string
  uni_fields :: "(string \<times> js_value) list"

record analysis_row =
  user_id :: string
  university_id :: string
  analysis :: js_value
  analyzed_at :: int

record store =
  profiles :: "(string \<times> js_value) list"
  universities :: "university list"
  user_university_analyses :: "analysis_row list"

definition getDefaultAnalysis :: js_value where
  "getDefaultAnalysis = Obj
     [(''profile_fit'', Obj
         [(''reasons'', Arr [Str ''Complete your profile to see personalized insights'']),
          (''score'', Num 50)]),
      (''budget_analysis'', Obj
         [(''tuition'', Num 0), (''user_budget'', Num 0), (''within_budget'', Bool True), (''gap'', Num 0),
          (''recommendation'', Str ''Set your budget in profile to see cost analysis'')]),
      (''country_preference'', Obj
         [(''matches'', Bool False), (''message'', Str ''Set country preferences to see matches'')]),
      (''acceptance_score'', Obj
         [(''percentage'', Num 50), (''category'', Str ''TARGET''),
          (''reasoning'', Str ''Complete profile for accurate assessment'')]),
      (''risk_level'', Str ''medium''),
      (''cost_level'', Str ''medium'')]"

definition isValidAnalysis :: "js_value \<Rightarrow> bool" where
  "isValidAnalysis a =
     (truthy a \<and>
      truthy_opt (js_prop a ''profile_fit'') \<and>
      truthy_opt (js_prop a ''budget_analysis'') \<and>
      truthy_opt (js_prop a ''country_preference'') \<and>
      truthy_opt (js_prop a ''acceptance_score'') \<and>
      truthy_opt (js_prop a ''risk_level''))"



text \<open>\<^verbatim>\<open>.upsert({...}, { onConflict: 'user_id,university_id' })\<close>\<close>

definition cacheAnalysis :: "int \<Rightarrow> string \<Rightarrow> string \<Rightarrow> js_value \<Rightarrow> store \<Rightarrow> store" where
  "cacheAnalysis now userId universityId a db =
     (let entry = \<lparr>user_id = userId, university_id = universityId, analysis = a, analyzed_at = now\<rparr>;
          rows = user_university_analyses db
      in db\<lparr>user_university_analyses :=
           (if \<exists>r \<in> set rows. user_id r = userId \<and> university_id r = universityId
            then map (\<lambda>r. if user_id r = userId \<and> university_id r = universityId then entry else r) rows
            else rows @ [entry])\<rparr>)"

subsection \<open>Optional chaining\<close>






subsection \<open>Reading the model's answer\<close>

text \<open>\<^verbatim>\<open>{...a, ...b}\<close>\<close>

definition obj_merge :: "(string \<times> js_value) list \<Rightarrow> (string \<times> js_value) list \<Rightarrow> (string \<times> js_value) list" where
  "obj_merge a b = fold (\<lambda>(k, v) acc. obj_put k v acc) b a"

text \<open>
  Step 6 of \<open>analyzeUniversityForDiscovery\<close>, the body of its inner \<^verbatim>\<open>try\<close>: the analysis
  read from the response, or the exception that the inner \<^verbatim>\<open>catch\<close> receives.
\<close>

definition parseDiscoveryResponse :: "llm_env \<Rightarrow> js_value \<Rightarrow> js_error + js_value" where
  "parseDiscoveryResponse env response =
     (if truthy response \<and> typeof_object response \<and>
         (truthy_opt (js_prop response ''profile_fit'') \<or> truthy_opt (js_prop response ''budget_analysis''))
      then Inr response
      else case get_prop response ''text'' of
        Inl e \<Rightarrow> Inl e
      | Inr response_text \<Rightarrow>
          if is_string response \<or> truthy_opt response_text
          then
            (case (case response_text of
                     None \<Rightarrow> response
                   | Some t \<Rightarrow> if truthy t then t else response) of
               Str text \<Rightarrow>
                 let cleanedText = clean_markdown text
                 in (case match_delimited CHR ''{'' CHR ''}'' cleanedText of
                       Some jsonMatch \<Rightarrow>
                         (case JSON_parse env jsonMatch of
                            Inr a \<Rightarrow> Inr a
                          | Inl parseError \<Rightarrow>
                              let furtherCleaned =
                                    trim (remove_comma_before CHR '']'' (remove_comma_before CHR ''}'' jsonMatch))
                              in JSON_parse env furtherCleaned)
                     | None \<Rightarrow> Inl (Error ''No JSON object found in response''))
             | other \<Rightarrow> Inl (TypeError ''text.replace is not a function''))
          else Inr response)"

subsection \<open>analyzeUniversityForDiscovery\<close>

text \<open>
  The prompt text is of no consequence to the vendors as modelled (they are parameters), so
  \<open>buildDiscoveryPrompt\<close> is one too: it gives the prompt or the exception raised while the
  template is filled in.
\<close>

record discovery_env =
  llm :: llm_env
  buildDiscoveryPrompt :: "js_value \<Rightarrow> university \<Rightarrow> js_error + string"

text \<open>Steps 3 to 7, after the cache has been passed over and a profile is there. An exception
  anywhere is caught by the outer \<^verbatim>\<open>catch\<close>, a failure to read the answer by the inner one;
  both return the default analysis and write nothing.\<close>

definition analyzeFresh ::
  "discovery_env \<Rightarrow> store \<Rightarrow> int \<Rightarrow> string \<Rightarrow> string \<Rightarrow> js_value \<Rightarrow> js_value \<times> store \<times> event list" where
  "analyzeFresh env db now userId universityId profile =
     (case single (filter (\<lambda>u. uni_id u = universityId) (universities db)) of
        None \<Rightarrow> (getDefaultAnalysis, db, [])
      | Some university \<Rightarrow>
          (case buildDiscoveryPrompt env profile university of
             Inl e \<Rightarrow> (getDefaultAnalysis, db, [])
           | Inr systemPrompt \<Rightarrow>
               let messages = [(''user'', ''Analyze '' @ uni_name university @ '' for discovery browsing'')]
               in (case getLLMResponse (llm env) messages systemPrompt (Some (Str ''GROQ'')) of
                     (Inl e, evs) \<Rightarrow> (getDefaultAnalysis, db, evs)
                   | (Inr response, evs) \<Rightarrow>
                       (case parseDiscoveryResponse (llm env) response of
                          Inl parseError \<Rightarrow> (getDefaultAnalysis, db, evs)
                        | Inr parsed \<Rightarrow>
                            let a = (if \<not> isValidAnalysis parsed
                                     then Obj (obj_merge (spread getDefaultAnalysis) (spread parsed))
                                     else parsed)
                            in (a, cacheAnalysis now userId universityId a db, evs)))))"




subsection \<open>Sample data\<close>

definition fenced_example :: string where
  "fenced_example = ''```json'' @ [CHR 0x0A] @ ''{\"a\":1,}'' @ [CHR 0x0A] @ ''```''"

text \<open>The store with the analysis rows of one (user, university) pair taken out.\<close>

definition without_analysis :: "store \<Rightarrow> string \<Rightarrow> string \<Rightarrow> store" where
  "without_analysis db userId universityId =
     db\<lparr>user_university_analyses :=
          filter (\<lambda>r. \<not> (user_id r = userId \<and> university_id r = universityId)) (user_university_analyses db)\<rparr>"

section \<open>A reference JSON.parse\<close>

text \<open>
  \<^verbatim>\<open>JSON.parse\<close> belongs to the runtime and is a parameter of the services above. This is a
  parser of the JSON grammar (ECMA-404) over 8-bit strings to instantiate it with: objects,
  arrays, strings with their escapes, numbers, the three literals, white space. A later
  duplicate of a key replaces the earlier value. The fuel bounds the nesting of calls; twice
  the length of the text is more than a text can use.
\<close>

definition json_ws :: "char \<Rightarrow> bool" where
  "json_ws c = (c \<in> set [CHR '' '', CHR 0x09, CHR 0x0A, CHR 0x0D])"

definition skip_ws :: "string \<Rightarrow> string" where
  "skip_ws s = dropWhile json_ws s"

definition hex_value :: "char \<Rightarrow> nat option" where
  "hex_value c =
     (let n = (of_char c :: nat)
      in if 48 \<le> n \<and> n \<le> 57 then Some (n - 48)
         else if 65 \<le> n \<and> n \<le> 70 then Some (n - 55)
         else if 97 \<le> n \<and> n \<le> 102 then Some (n - 87)
         else None)"

text \<open>The characters of a string after its opening quote, up to the closing one.\<close>

fun parse_chars :: "string \<Rightarrow> (string \<times> string) option" where
  "parse_chars [] = None"
| "parse_chars (c # cs) =
     (if c = CHR 0x22 then Some ([], cs)
      else if c = CHR 0x5C then
        (case cs of
           [] \<Rightarrow> None
         | e # rest \<Rightarrow>
             if e = CHR ''u'' then
               (case rest of
                  h1 # h2 # h3 # h4 # rest' \<Rightarrow>
                    (case (hex_value h1, hex_value h2, hex_value h3, hex_value h4) of
                       (Some a, Some b, Some c', Some d) \<Rightarrow>
                         if a = 0 \<and> b = 0
                         then map_option (\<lambda>(s, r). (char_of (16 * c' + d) # s, r)) (parse_chars rest')
                         else None
                     | _ \<Rightarrow> None)
                | _ \<Rightarrow> None)
             else
               (case map_of [(CHR 0x22, CHR 0x22), (CHR 0x5C, CHR 0x5C), (CHR ''/'', CHR ''/''),
                             (CHR ''b'', CHR 0x08), (CHR ''f'', CHR 0x0C), (CHR ''n'', CHR 0x0A),
                             (CHR ''r'', CHR 0x0D), (CHR ''t'', CHR 0x09)] e of
                  None \<Rightarrow> None
                | Some x \<Rightarrow> map_option (\<lambda>(s, r). (x # s, r)) (parse_chars rest)))
      else if (of_char c :: nat) < 32 then None
      else map_option (\<lambda>(s, r). (c # s, r)) (parse_chars cs))"

text \<open>A number: an optional minus, an integer part without a superfluous leading zero, an
  optional fraction, an optional exponent.\<close>

definition parse_number :: "string \<Rightarrow> (rat \<times> string) option" where
  "parse_number s =
     (let negative = (s \<noteq> [] \<and> hd s = CHR ''-'');
          s1 = (if negative then tl s else s);
          ip = takeWhile is_digit s1;
          s2 = dropWhile is_digit s1
      in if ip = [] \<or> (length ip > 1 \<and> hd ip = CHR ''0'') then None
         else
           let has_frac = (s2 \<noteq> [] \<and> hd s2 = CHR ''.'');
               fp = (if has_frac then takeWhile is_digit (tl s2) else []);
               s3 = (if has_frac then dropWhile is_digit (tl s2) else s2)
           in if has_frac \<and> fp = [] then None
              else
                let has_exp = (s3 \<noteq> [] \<and> (hd s3 = CHR ''e'' \<or> hd s3 = CHR ''E''));
                    s4 = (if has_exp then tl s3 else s3);
                    exp_neg = (has_exp \<and> s4 \<noteq> [] \<and> hd s4 = CHR ''-'');
                    s5 = (if has_exp \<and> s4 \<noteq> [] \<and> (hd s4 = CHR ''-'' \<or> hd s4 = CHR ''+'') then tl s4 else s4);
                    ep = (if has_exp then takeWhile is_digit s5 else []);
                    s6 = (if has_exp then dropWhile is_digit s5 else s3)
                in if has_exp \<and> ep = [] then None
                   else
                     let mantissa = (if fp = [] then rat_of_nat (digits_value ip)
                                     else rat_of_nat (digits_value (ip @ fp)) / 10 ^ length fp);
                         scaled = (if \<not> has_exp then mantissa
                                   else if exp_neg then mantissa / 10 ^ digits_value ep
                                   else mantissa * 10 ^ digits_value ep)
                     in Some (if negative then - scaled else scaled, s6))"

fun parse_value :: "nat \<Rightarrow> string \<Rightarrow> (js_value \<times> string) option"
  and parse_elements :: "nat \<Rightarrow> string \<Rightarrow> (js_value list \<times> string) option"
  and parse_members :: "nat \<Rightarrow> string \<Rightarrow> ((string \<times> js_value) list \<times> string) option" where
  "parse_value 0 s = None"
| "parse_value (Suc n) s =
     (case skip_ws s of
        [] \<Rightarrow> None
      | c # cs \<Rightarrow>
          if c = CHR ''{'' then
            (if skip_ws cs \<noteq> [] \<and> hd (skip_ws cs) = CHR ''}'' then Some (Obj [], tl (skip_ws cs))
             else map_option (\<lambda>(kvs, r). (Obj (fold (\<lambda>(k, v) acc. obj_put k v acc) kvs []), r)) (parse_members n cs))
          else if c = CHR ''['' then
            (if skip_ws cs \<noteq> [] \<and> hd (skip_ws cs) = CHR '']'' then Some (Arr [], tl (skip_ws cs))
             else map_option (\<lambda>(vs, r). (Arr vs, r)) (parse_elements n cs))
          else if c = CHR 0x22 then map_option (\<lambda>(str, r). (Str str, r)) (parse_chars cs)
          else if prefix ''true'' (c # cs) then Some (Bool True, drop 4 (c # cs))
          else if prefix ''false'' (c # cs) then Some (Bool False, drop 5 (c # cs))
          else if prefix ''null'' (c # cs) then Some (Null, drop 4 (c # cs))
          else map_option (\<lambda>(x, r). (Num x, r)) (parse_number (c # cs)))"
| "parse_elements 0 s = None"
| "parse_elements (Suc n) s =
     (case parse_value n s of
        None \<Rightarrow> None
      | Some (v, r) \<Rightarrow>
          (case skip_ws r of
             [] \<Rightarrow> None
           | c # r' \<Rightarrow>
               if c = CHR '','' then map_option (\<lambda>(vs, r''). (v # vs, r'')) (parse_elements n r')
               else if c = CHR '']'' then Some ([v], r')
               else None))"
| "parse_members 0 s = None"
| "parse_members (Suc n) s =
     (case skip_ws s of
        [] \<Rightarrow> None
      | q # cs \<Rightarrow>
          if q \<noteq> CHR 0x22 then None
          else
            (case parse_chars cs of
               None \<Rightarrow> None
             | Some (k, r) \<Rightarrow>
                 (case skip_ws r of
                    [] \<Rightarrow> None
                  | colon # r1 \<Rightarrow>
                      if colon \<noteq> CHR '':'' then None
                      else
                        (case parse_value n r1 of
                           None \<Rightarrow> None
                         | Some (v, r2) \<Rightarrow>
                             (case skip_ws r2 of
                                [] \<Rightarrow> None
                              | c # r3 \<Rightarrow>
                                  if c = CHR '','' then map_option (\<lambda>(kvs, r4). ((k, v) # kvs, r4)) (parse_members n r3)
                                  else if c = CHR ''}'' then Some ([(k, v)], r3)
                                  else None)))))"

definition json_parse :: "string \<Rightarrow> js_error + js_value" where
  "json_parse s =
     (case parse_value (2 * length s + 2) s of
        None \<Rightarrow> Inl (SyntaxError ''Unexpected token in JSON'')
      | Some (v, r) \<Rightarrow> if skip_ws r = [] then Inr v else Inl (SyntaxError ''Unexpected token in JSON''))"

subsection \<open>Sample environments and stores\<close>

text \<open>Groq answers every request with \<open>reply\<close>; no Gemini key is configured.\<close>

definition groq_answers :: "string \<Rightarrow> llm_env" where
  "groq_answers reply =
     \<lparr>GEMINI_API_KEYS = [],
      GROQ_API_KEYS = [''q-key-1''],
      random_rank = (\<lambda>m k. 0),
      gemini_generateContent = (\<lambda>k m p. Inl ''API key not valid''),
      groq_chat_completions = (\<lambda>k sp ms. Inr reply),
      JSON_parse = json_parse\<rparr>"

definition sample_discovery_env :: "string \<Rightarrow> discovery_env" where
  "sample_discovery_env reply =
     \<lparr>llm = groq_answers reply,
      buildDiscoveryPrompt = (\<lambda>profile u. Inr (''You are a university matching expert. '' @ uni_name u))\<rparr>"







section \<open>aiService: enrichUniversity\<close>

text \<open>\<^verbatim>\<open>s.replace(/pat/g, '')\<close> for a literal, non-empty \<open>pat\<close>.\<close>

function remove_all :: "string \<Rightarrow> string \<Rightarrow> string" where
  "remove_all pat [] = []"
| "remove_all pat (c # cs) =
     (if pat \<noteq> [] \<and> prefix pat (c # cs)
      then remove_all pat (drop (length pat) (c # cs))
      else c # remove_all pat cs)"
  by pat_completeness auto
termination
proof (relation "measure (\<lambda>(pat, s). length s)")
  show "wf (measure (\<lambda>(pat, s). length s))" by simp
next
  fix pat :: string and c cs
  assume "pat \<noteq> [] \<and> prefix pat (c # cs)"
  then have "length (drop (length pat) (c # cs)) < length (c # cs)" by (cases pat) auto
  then show "((pat, drop (length pat) (c # cs)), (pat, c # cs)) \<in> measure (\<lambda>(pat, s). length s)"
    by simp
next
  fix pat :: string and c cs
  show "((pat, cs), (pat, c # cs)) \<in> measure (\<lambda>(pat, s). length s)" by simp
qed

definition enrichmentPrompt :: "string \<Rightarrow> string \<Rightarrow> string" where
  "enrichmentPrompt name cntry = join_lines
     [''You are a university data expert. Provide detailed information for \"'' @ name @ ''\" in \"'' @ cntry
        @ ''\" as a strictly formatted JSON object.'',
      ''    '',
      ''    Return ONLY this JSON structure (no markdown, no extra text):'',
      ''    {'',
      ''        \"name\": \"Official Name\",'',
      ''        \"country\": \"'' @ cntry @ ''\",'',
      ''        \"city\": \"City Name (e.g. London, Boston)\",'',
      ''        \"domain\": \"university-website.edu (or .com/etc)\",'',
      ''        \"tuition_estimate\": 0 (integer USD per year estimate for international students),'',
      ''        \"acceptance_rate\": 0.0 (percentage estimate, e.g. 25.5),'',
      ''        \"rank\": 0 (integer global rank estimate, e.g. 50),'',
      ''        \"description\": \"Short description (max 200 chars)\",'',
      ''        \"popular_majors\": [\"Major 1\", \"Major 2\"]'',
      ''    }'',
      ''    '',
      ''    If exact data is unknown, provide a reasonable estimate based on similar institutions in that region.'']"

definition parse_failure :: "string \<Rightarrow> string \<Rightarrow> js_value" where
  "parse_failure name cntry =
     Obj [(''name'', Str name), (''country'', Str cntry), (''error'', Str ''Failed to parse AI response'')]"

definition enrich_failure :: "string \<Rightarrow> string \<Rightarrow> js_value" where
  "enrich_failure name cntry =
     Obj [(''name'', Str name), (''country'', Str cntry), (''error'', Str ''Failed to enrich''),
          (''_cache_meta'', Obj [(''cached'', Bool False), (''confidence_score'', Num 0), (''source'', Str ''ERROR'')])]"

text \<open>The choice of \<open>enrichedData\<close> in \<open>enrichUniversity\<close>, or the exception raised on the way.\<close>

definition readEnrichment :: "llm_env \<Rightarrow> string \<Rightarrow> string \<Rightarrow> js_value \<Rightarrow> js_error + js_value" where
  "readEnrichment env name cntry response =
     (if truthy response \<and>
         (truthy_opt (js_prop response ''name'') \<or> truthy_opt (js_prop response ''tuition_estimate'')
          \<or> truthy_opt (js_prop response ''city''))
      then Inr response
      else case get_prop response ''text'' of
        Inl e \<Rightarrow> Inl e
      | Inr response_text \<Rightarrow>
          if is_string response \<or> truthy_opt response_text
          then
            (case (case response_text of
                     None \<Rightarrow> response
                   | Some t \<Rightarrow> if truthy t then t else response) of
               Str text \<Rightarrow>
                 (case match_delimited CHR ''{'' CHR ''}'' text of
                    Some jsonMatch \<Rightarrow>
                      (case JSON_parse env jsonMatch of
                         Inr d \<Rightarrow> Inr d
                       | Inl e \<Rightarrow>
                           let cleaned = trim (remove_all ''```'' (remove_all ''```json'' jsonMatch))
                           in (case JSON_parse env cleaned of
                                 Inr d \<Rightarrow> Inr d
                               | Inl e2 \<Rightarrow> Inr (parse_failure name cntry)))
                  | None \<Rightarrow> Inr (parse_failure name cntry))
             | other \<Rightarrow> Inl (TypeError ''text.match is not a function''))
          else Inr response)"

text \<open>\<^verbatim>\<open>response._aiSource || 'AI'\<close>. A response of \<open>getLLMResponse\<close> has a string there
  or nothing; any other value is read as nothing.\<close>

definition aiSource :: "js_value \<Rightarrow> string" where
  "aiSource response =
     (case js_prop response ''_aiSource'' of
        Some (Str s) \<Rightarrow> if s = [] then ''AI'' else s
      | _ \<Rightarrow> ''AI'')"

definition fresh_meta :: "int \<Rightarrow> js_value \<Rightarrow> string \<Rightarrow> js_value" where
  "fresh_meta now confidence src = Obj
     [(''cached'', Bool False),
      (''confidence_score'', confidence),
      (''source'', Str src),
      (''is_verified'', Bool False),
      (''created_at'', Num (rat_of_int now)),
      (''access_count'', Num 1)]"

text \<open>The part of \<open>enrichUniversity\<close> after the cache has been passed over.\<close>

definition enrichFresh ::
  "llm_env \<Rightarrow> int \<Rightarrow> string \<Rightarrow> string \<Rightarrow> cache_row list \<Rightarrow> js_value \<times> cache_row list \<times> event list" where
  "enrichFresh env now name cntry tbl =
     (let systemPrompt = enrichmentPrompt name cntry;
          messages = [(''user'', ''Enrich data for '' @ name @ '' in '' @ cntry)]
      in case getLLMResponse env messages systemPrompt
                (Some (Obj [(''provider'', Str ''GEMINI''), (''model'', Str ''gemini-2.5-flash-lite'')])) of
           (Inl e, evs) \<Rightarrow> (enrich_failure name cntry, tbl, evs)
         | (Inr response, evs) \<Rightarrow>
             (case readEnrichment env name cntry response of
                Inl e \<Rightarrow> (enrich_failure name cntry, tbl, evs)
              | Inr enrichedData \<Rightarrow>
                  let src = aiSource response;
                      tbl' = snd (setCachedEnrichment now name cntry enrichedData src tbl)
                  in (case calculateConfidenceScore enrichedData src False of
                        Inl e \<Rightarrow> (enrich_failure name cntry, tbl', evs)
                      | Inr confidence \<Rightarrow>
                          (Obj (obj_put ''_cache_meta'' (fresh_meta now confidence src) (spread enrichedData)),
                           tbl', evs))))"

definition enrichUniversity ::
  "llm_env \<Rightarrow> (cache_row \<Rightarrow> cache_row) \<Rightarrow> int \<Rightarrow> string \<Rightarrow> string \<Rightarrow> cache_row list
     \<Rightarrow> js_value \<times> cache_row list \<times> event list" where
  "enrichUniversity env bump now name cntry tbl =
     (case getCachedEnrichment bump now name cntry tbl of
        (Some cached, tbl') \<Rightarrow>
          if \<not> truthy_opt (js_prop cached ''error'') then (cached, tbl', [])
          else enrichFresh env now name cntry tbl'
      | (None, tbl') \<Rightarrow> enrichFresh env now name cntry tbl')"

text \<open>A cached row whose payload has an \<open>error\<close> field holding the empty string.\<close>

definition row_with_empty_error :: cache_row where
  "row_with_empty_error =
     (sample_row 1 ''MIT'' ''USA'' ''GEMINI'' 0 False)
       \<lparr>enriched_data := Obj [(''name'', Str ''MIT''), (''error'', Str '''')]\<rparr>"

definition row_with_parse_failure :: cache_row where
  "row_with_parse_failure =
     (sample_row 1 ''MIT'' ''USA'' ''GEMINI'' 0 False)\<lparr>enriched_data := parse_failure ''MIT'' ''USA''\<rparr>"

section \<open>Batch enrichment and batch analysis\<close>

subsection \<open>Reading an array from the model's answer\<close>



subsection \<open>universityEnrichment: batchEnrichUniversitiesWithSingleCall\<close>






subsection \<open>universityService: the batch enrichment of searchUniversities\<close>














subsection \<open>universityService: the batch upsert of searchUniversities\<close>








subsection \<open>discoveryAnalysisService: batchAnalyzeUniversities\<close>












subsection \<open>Sample batches\<close>















section \<open>Properties of objects\<close>

lemma is_digit_chars: "is_digit c \<Longrightarrow> c \<in> set ''0123456789''"
proof -
  assume d: "is_digit c"
  define n where "n = (of_char c :: nat)"
  have k: "(of_char c :: nat) = of_char d \<Longrightarrow> c = d" for d by (simp only: of_char_eq_iff)
  have "48 \<le> n" "n \<le> 57" using d by (simp_all add: is_digit_def n_def)
  then have "n = 48 \<or> n = 49 \<or> n = 50 \<or> n = 51 \<or> n = 52 \<or> n = 53 \<or> n = 54 \<or> n = 55 \<or> n = 56 \<or> n = 57"
    by arith
  then have "c = CHR ''0'' \<or> c = CHR ''1'' \<or> c = CHR ''2'' \<or> c = CHR ''3'' \<or> c = CHR ''4''
      \<or> c = CHR ''5'' \<or> c = CHR ''6'' \<or> c = CHR ''7'' \<or> c = CHR ''8'' \<or> c = CHR ''9''"
    using k[of "CHR ''0''"] k[of "CHR ''1''"] k[of "CHR ''2''"] k[of "CHR ''3''"] k[of "CHR ''4''"]
      k[of "CHR ''5''"] k[of "CHR ''6''"] k[of "CHR ''7''"] k[of "CHR ''8''"] k[of "CHR ''9''"]
    unfolding n_def by simp blast
  then show ?thesis by auto
qed

lemma array_index_plain [simp]: "k \<noteq> [] \<Longrightarrow> hd k \<notin> set ''0123456789'' \<Longrightarrow> array_index k = None"
proof -
  assume k: "k \<noteq> []" and h: "hd k \<notin> set ''0123456789''"
  then have "\<not> is_digit (hd k)" using is_digit_chars by blast
  then have "\<not> list_all is_digit k" using k by (cases k) auto
  then show ?thesis by (simp add: array_index_def)
qed

lemma insert_key_plain: "array_index k = None \<Longrightarrow> insert_key k v kvs = kvs @ [(k, v)]"
  by (induction kvs) (auto simp: key_before_def)

lemma obj_put_Nil [simp]: "obj_put k v [] = [(k, v)]"
  by (simp add: obj_put_def)

lemma obj_put_plain [simp]:
  "array_index k = None \<Longrightarrow>
     obj_put k v ((k', v') # kvs) = (if k' = k then (k, v) # kvs else (k', v') # obj_put k v kvs)"
  by (auto simp: obj_put_def key_before_def)

lemma map_of_replace_key: "k \<in> fst ` set kvs \<Longrightarrow> map_of (replace_key k v kvs) k = Some v"
  by (induction kvs) force+

lemma map_of_insert_key: "k \<notin> fst ` set kvs \<Longrightarrow> map_of (insert_key k v kvs) k = Some v"
  by (induction kvs) auto

lemma map_of_obj_put: "map_of (obj_put k v kvs) k = Some v"
  by (simp add: obj_put_def map_of_replace_key map_of_insert_key)

lemma map_of_obj_put_other: "k' \<noteq> k \<Longrightarrow> map_of (obj_put k v kvs) k' = map_of kvs k'"
proof -
  assume ne: "k' \<noteq> k"
  have r: "map_of (replace_key k v kvs) k' = map_of kvs k'" using ne by (induction kvs) auto
  have i: "map_of (insert_key k v kvs) k' = map_of kvs k'" using ne by (induction kvs) auto
  show ?thesis by (simp add: obj_put_def r i)
qed

lemma replace_key_keys: "map fst (replace_key k v kvs) = map fst kvs"
  by (induction kvs) auto

lemma insert_key_keys: "fst ` set (insert_key k v kvs) = insert k (fst ` set kvs)"
proof (induction kvs)
  case Nil
  then show ?case by simp
next
  case (Cons a kvs)
  obtain k' v' where a: "a = (k', v')" by (cases a)
  show ?case
  proof (cases "key_before k k'")
    case True
    then show ?thesis by (simp add: a)
  next
    case False
    then show ?thesis using Cons.IH by (simp add: a insert_commute)
  qed
qed

lemma obj_put_keys: "fst ` set (obj_put k v kvs) = insert k (fst ` set kvs)"
proof (cases "k \<in> fst ` set kvs")
  case True
  have "fst ` set (replace_key k v kvs) = set (map fst (replace_key k v kvs))" by simp
  also have "\<dots> = fst ` set kvs" by (simp only: replace_key_keys) simp
  finally show ?thesis using True by (auto simp: obj_put_def)
next
  case False
  then show ?thesis by (simp add: obj_put_def insert_key_keys)
qed



section \<open>Properties of the enrichment cache\<close>

subsection \<open>Keys and upsert\<close>

lemma filter_unique_key:
  "unique_keys tbl \<Longrightarrow> r \<in> set tbl \<Longrightarrow> key_matches n c r \<Longrightarrow> filter (key_matches n c) tbl = [r]"
proof (induction tbl)
  case Nil
  then show ?case by simp
next
  case (Cons a tbl)
  show ?case
  proof (cases "a = r")
    case True
    have "\<forall>x \<in> set tbl. \<not> key_matches n c x"
      using Cons.prems True by (force simp: unique_keys_def key_matches_def image_iff)
    then have "filter (key_matches n c) tbl = []" by (simp add: filter_empty_conv)
    with True Cons.prems show ?thesis by simp
  next
    case False
    then have rin: "r \<in> set tbl" using Cons.prems by simp
    have "\<not> key_matches n c a"
      using Cons.prems rin by (force simp: unique_keys_def key_matches_def)
    moreover have "unique_keys tbl" using Cons.prems by (simp add: unique_keys_def)
    ultimately show ?thesis using Cons.IH rin Cons.prems by simp
  qed
qed

lemma filter_no_key:
  "\<forall>r \<in> set tbl. \<not> key_matches n c r \<Longrightarrow> filter (key_matches n c) tbl = []"
  by (simp add: filter_empty_conv)

lemma write_entry_key [simp]:
  "university_name (write_entry e r) = university_name e" "country (write_entry e r) = country e"
  by (simp_all add: write_entry_def)

lemma upsert_keys_present:
  "\<exists>r \<in> set tbl. key_matches (university_name e) (country e) r \<Longrightarrow>
   map (\<lambda>r. (university_name r, country r)) (upsert e tbl) = map (\<lambda>r. (university_name r, country r)) tbl"
  by (auto simp: upsert_def key_matches_def)

lemma upsert_unique: "unique_keys tbl \<Longrightarrow> unique_keys (upsert e tbl)"
proof (cases "\<exists>r \<in> set tbl. key_matches (university_name e) (country e) r")
  case True
  assume "unique_keys tbl"
  then show ?thesis using upsert_keys_present[OF True] by (simp add: unique_keys_def)
next
  case False
  assume "unique_keys tbl"
  then show ?thesis using False by (auto simp: upsert_def unique_keys_def key_matches_def)
qed

lemma upsert_member:
  "\<exists>r \<in> set (upsert e tbl). key_matches (university_name e) (country e) r \<and>
      enriched_data r = enriched_data e \<and> confidence_score r = confidence_score e \<and>
      source r = source e \<and> created_at r = created_at e \<and> last_accessed_at r = last_accessed_at e \<and>
      access_count r = access_count e \<and> is_verified r = is_verified e"
proof (cases "\<exists>r \<in> set tbl. key_matches (university_name e) (country e) r")
  case True
  then obtain r where r: "r \<in> set tbl" "key_matches (university_name e) (country e) r" by blast
  then have "write_entry e r \<in> set (upsert e tbl)" using True by (force simp: upsert_def)
  then show ?thesis by (rule rev_bexI) (simp add: write_entry_def key_matches_def)
next
  case False
  then have "upsert e tbl = tbl @ [e\<lparr>row_id := fresh_id tbl, verified_by_user_id := None, verified_at := None\<rparr>]"
    by (simp add: upsert_def)
  then show ?thesis by (simp add: key_matches_def)
qed

lemma upsert_other_rows:
  "\<not> key_matches (university_name e) (country e) r \<Longrightarrow> r \<in> set (upsert e tbl) \<longleftrightarrow> r \<in> set tbl"
  by (auto simp: upsert_def key_matches_def write_entry_def)

lemma score_of_object: "\<exists>c. calculateConfidenceScore (Obj kvs) src v = Inr c"
  by (simp add: calculateConfidenceScore_def Let_def split: option.splits)

lemmas cache_eval = sample_row_def days_def unique_keys_def key_matches_def trim_def is_space_def
  single_def cache_ttl_def CACHE_TTL_VERIFIED_def CACHE_TTL_MANUAL_def CACHE_TTL_AI_ENRICHED_def

subsection \<open>The expiry sweep\<close>

text \<open>
  C9. \<open>clearExpiredCache\<close> deletes exactly the rows that are unverified and older than the
  longest TTL (30 days): what is left is the table without those rows, every other row as it
  was and in its place. A verified row is never deleted, however old.
\<close>

theorem clearExpiredCache_deletes_unverified_expired:
  "clearExpiredCache now tbl = filter (\<lambda>r. is_verified r \<or> now - created_at r \<le> days 30) tbl
   \<and> (\<forall>r \<in> set tbl. r \<notin> set (clearExpiredCache now tbl) \<longleftrightarrow> (\<not> is_verified r \<and> now - created_at r > days 30))
   \<and> (\<forall>r \<in> set (clearExpiredCache now tbl). r \<in> set tbl)"
proof -
  have eq: "clearExpiredCache now tbl = filter (\<lambda>r. is_verified r \<or> now - created_at r \<le> days 30) tbl"
    unfolding clearExpiredCache_def Let_def CACHE_TTL_VERIFIED_def days_def
    by (rule filter_cong) auto
  show ?thesis unfolding eq by auto
qed

theorem clearExpiredCache_witness:
  "clearExpiredCache (days 40)
      [sample_row 1 ''A'' ''X'' ''AI'' 0 True, sample_row 2 ''B'' ''X'' ''AI'' 0 False,
       sample_row 3 ''C'' ''X'' ''AI'' (days 20) False]
    = [sample_row 1 ''A'' ''X'' ''AI'' 0 True, sample_row 3 ''C'' ''X'' ''AI'' (days 20) False]
   \<and> sample_row 2 ''B'' ''X'' ''AI'' 0 False \<notin> set (clearExpiredCache (days 40)
      [sample_row 1 ''A'' ''X'' ''AI'' 0 True, sample_row 2 ''B'' ''X'' ''AI'' 0 False,
       sample_row 3 ''C'' ''X'' ''AI'' (days 20) False])"
  using clearExpiredCache_deletes_unverified_expired
    [of "days 40" "[sample_row 1 ''A'' ''X'' ''AI'' 0 True, sample_row 2 ''B'' ''X'' ''AI'' 0 False,
       sample_row 3 ''C'' ''X'' ''AI'' (days 20) False]"]
  by (simp add: cache_eval)

subsection \<open>Lookup and the TTL tiers\<close>

text \<open>
  C5. For a row of the table found under the trimmed key, \<open>getCachedEnrichment\<close> answers
  \<^verbatim>\<open>null\<close> exactly when the row's age exceeds the TTL of its tier: 30 days for a verified
  row, 14 days for an unverified row of source \<^verbatim>\<open>MANUAL\<close>, 7 days for any other. Within
  the TTL the answer is the record: the fields of the stored payload, each with its stored
  value, and next to them \<^verbatim>\<open>_cache_meta\<close>, which carries the stored confidence score as
  it is in the row, the row's source, verification flag and creation time, \<open>cached\<close> true and
  the access count plus one.
\<close>

theorem getCachedEnrichment_miss_iff_expired:
  assumes uniq: "unique_keys tbl"
    and mem: "data \<in> set tbl"
    and key: "key_matches (trim name) (trim cntry) data"
  shows "(fst (getCachedEnrichment bump now name cntry tbl) = None \<longleftrightarrow>
            now - created_at data >
              (if is_verified data then days 30 else if source data = ''MANUAL'' then days 14 else days 7))
       \<and> (\<not> now - created_at data >
              (if is_verified data then days 30 else if source data = ''MANUAL'' then days 14 else days 7)
          \<longrightarrow> (\<exists>v m. fst (getCachedEnrichment bump now name cntry tbl) = Some v
                 \<and> v = Obj (obj_put ''_cache_meta'' m (spread (enriched_data data)))
                 \<and> (\<forall>k. k \<noteq> ''_cache_meta'' \<longrightarrow> js_prop v k = map_of (spread (enriched_data data)) k)
                 \<and> js_prop v ''_cache_meta'' = Some m
                 \<and> m = Obj [(''cached'', Bool True),
                            (''confidence_score'', confidence_score data),
                            (''source'', Str (source data)),
                            (''is_verified'', Bool (is_verified data)),
                            (''created_at'', Num (rat_of_int (created_at data))),
                            (''access_count'', Num (rat_of_int (access_count data + 1)))]
                 \<and> js_prop m ''confidence_score'' = Some (confidence_score data)))"
proof -
  have sel: "single (filter (key_matches (trim name) (trim cntry)) tbl) = Some data"
    using filter_unique_key[OF uniq mem key] by (simp add: single_def)
  have ttl: "cache_ttl data = (if is_verified data then days 30 else if source data = ''MANUAL'' then days 14 else days 7)"
    by (simp add: cache_ttl_def days_def CACHE_TTL_VERIFIED_def CACHE_TTL_MANUAL_def CACHE_TTL_AI_ENRICHED_def)
  have meta: "js_prop (cache_meta data) ''confidence_score'' = Some (confidence_score data)"
    by (simp add: cache_meta_def)
  have m: "cache_meta data = Obj [(''cached'', Bool True),
                            (''confidence_score'', confidence_score data),
                            (''source'', Str (source data)),
                            (''is_verified'', Bool (is_verified data)),
                            (''created_at'', Num (rat_of_int (created_at data))),
                            (''access_count'', Num (rat_of_int (access_count data + 1)))]"
    by (simp add: cache_meta_def)
  show ?thesis
    unfolding getCachedEnrichment_def sel ttl[symmetric] m[symmetric]
    by (simp add: Let_def map_of_obj_put map_of_obj_put_other meta)
qed

theorem getCachedEnrichment_miss_iff_expired_witness:
  "unique_keys [sample_row 1 ''MIT'' ''USA'' ''MANUAL'' 0 False]
   \<and> sample_row 1 ''MIT'' ''USA'' ''MANUAL'' 0 False \<in> set [sample_row 1 ''MIT'' ''USA'' ''MANUAL'' 0 False]
   \<and> key_matches (trim '' MIT '') (trim ''USA'') (sample_row 1 ''MIT'' ''USA'' ''MANUAL'' 0 False)
   \<and> fst (getCachedEnrichment (\<lambda>r. r) (days 10) '' MIT '' ''USA'' [sample_row 1 ''MIT'' ''USA'' ''MANUAL'' 0 False])
       = Some (Obj [(''name'', Str ''MIT''),
                    (''_cache_meta'', Obj [(''cached'', Bool True),
                                           (''confidence_score'', Num (55/100)),
                                           (''source'', Str ''MANUAL''),
                                           (''is_verified'', Bool False),
                                           (''created_at'', Num 0),
                                           (''access_count'', Num 2)])])
   \<and> fst (getCachedEnrichment (\<lambda>r. r) (days 15) '' MIT '' ''USA'' [sample_row 1 ''MIT'' ''USA'' ''MANUAL'' 0 False]) = None"
proof -
  have u: "unique_keys [sample_row 1 ''MIT'' ''USA'' ''MANUAL'' 0 False]"
    by (simp add: cache_eval)
  have m: "sample_row 1 ''MIT'' ''USA'' ''MANUAL'' 0 False \<in> set [sample_row 1 ''MIT'' ''USA'' ''MANUAL'' 0 False]"
    by simp
  have k: "key_matches (trim '' MIT '') (trim ''USA'') (sample_row 1 ''MIT'' ''USA'' ''MANUAL'' 0 False)"
    by (simp add: cache_eval)
  have f: "\<not> days 10 - created_at (sample_row 1 ''MIT'' ''USA'' ''MANUAL'' 0 False)
      > (if is_verified (sample_row 1 ''MIT'' ''USA'' ''MANUAL'' 0 False) then days 30
         else if source (sample_row 1 ''MIT'' ''USA'' ''MANUAL'' 0 False) = ''MANUAL'' then days 14 else days 7)"
    by (simp add: cache_eval)
  from getCachedEnrichment_miss_iff_expired[OF u m k, of "\<lambda>r. r" "days 10"] f
  obtain v ma where v: "fst (getCachedEnrichment (\<lambda>r. r) (days 10) '' MIT '' ''USA'' [sample_row 1 ''MIT'' ''USA'' ''MANUAL'' 0 False]) = Some v"
      "v = Obj (obj_put ''_cache_meta'' ma (spread (enriched_data (sample_row 1 ''MIT'' ''USA'' ''MANUAL'' 0 False))))"
      "ma = Obj [(''cached'', Bool True),
                 (''confidence_score'', confidence_score (sample_row 1 ''MIT'' ''USA'' ''MANUAL'' 0 False)),
                 (''source'', Str (source (sample_row 1 ''MIT'' ''USA'' ''MANUAL'' 0 False))),
                 (''is_verified'', Bool (is_verified (sample_row 1 ''MIT'' ''USA'' ''MANUAL'' 0 False))),
                 (''created_at'', Num (rat_of_int (created_at (sample_row 1 ''MIT'' ''USA'' ''MANUAL'' 0 False)))),
                 (''access_count'', Num (rat_of_int (access_count (sample_row 1 ''MIT'' ''USA'' ''MANUAL'' 0 False) + 1)))]"
    by blast
  have hit: "fst (getCachedEnrichment (\<lambda>r. r) (days 10) '' MIT '' ''USA'' [sample_row 1 ''MIT'' ''USA'' ''MANUAL'' 0 False])
       = Some (Obj [(''name'', Str ''MIT''),
                    (''_cache_meta'', Obj [(''cached'', Bool True),
                                           (''confidence_score'', Num (55/100)),
                                           (''source'', Str ''MANUAL''),
                                           (''is_verified'', Bool False),
                                           (''created_at'', Num 0),
                                           (''access_count'', Num 2)])])"
    unfolding v by (simp add: sample_row_def)
  have miss: "fst (getCachedEnrichment (\<lambda>r. r) (days 15) '' MIT '' ''USA'' [sample_row 1 ''MIT'' ''USA'' ''MANUAL'' 0 False]) = None"
    using getCachedEnrichment_miss_iff_expired[OF u m k, of "\<lambda>r. r" "days 15"]
    by (simp add: cache_eval)
  show ?thesis using u m k hit miss by simp
qed

subsection \<open>Store\<close>

text \<open>
  C4. Two calls of \<open>setCachedEnrichment\<close> under the same name and country leave exactly one
  row for the key. Each of the nine columns the function writes comes from the second call:
  the payload is the second payload as it is, the score is \<open>calculateConfidenceScore\<close> of
  that payload, its source and \<^verbatim>\<open>false\<close>, the verification flag is false and the access
  count is 1.
\<close>

theorem setCachedEnrichment_second_write_wins:
  assumes uniq: "unique_keys tbl"
  shows "\<exists>row. filter (key_matches (trim name) (trim cntry))
                 (snd (setCachedEnrichment now2 name cntry (Obj kvs2) src2
                        (snd (setCachedEnrichment now1 name cntry (Obj kvs1) src1 tbl)))) = [row]
           \<and> fst (setCachedEnrichment now2 name cntry (Obj kvs2) src2
                        (snd (setCachedEnrichment now1 name cntry (Obj kvs1) src1 tbl))) = Some row
           \<and> enriched_data row = Obj kvs2
           \<and> calculateConfidenceScore (Obj kvs2) src2 False = Inr (confidence_score row)
           \<and> source row = src2
           \<and> created_at row = now2
           \<and> last_accessed_at row = now2
           \<and> access_count row = 1
           \<and> is_verified row = False"
proof -
  obtain c1 where c1: "calculateConfidenceScore (Obj kvs1) src1 False = Inr c1"
    using score_of_object by blast
  obtain c2 where c2: "calculateConfidenceScore (Obj kvs2) src2 False = Inr c2"
    using score_of_object by blast
  define t1 where "t1 = upsert (cacheEntry now1 name cntry (Obj kvs1) c1 src1) tbl"
  define e2 where "e2 = cacheEntry now2 name cntry (Obj kvs2) c2 src2"
  define t2 where "t2 = upsert e2 t1"
  have u1: "unique_keys t1" unfolding t1_def by (rule upsert_unique[OF uniq])
  have u2: "unique_keys t2" unfolding t2_def by (rule upsert_unique[OF u1])
  have k2: "university_name e2 = trim name" "country e2 = trim cntry"
    by (simp_all add: e2_def cacheEntry_def)
  obtain row where row: "row \<in> set t2" "key_matches (trim name) (trim cntry) row"
      "enriched_data row = enriched_data e2" "confidence_score row = confidence_score e2"
      "source row = source e2" "created_at row = created_at e2" "last_accessed_at row = last_accessed_at e2"
      "access_count row = access_count e2" "is_verified row = is_verified e2"
    using upsert_member[of e2 t1] unfolding t2_def k2 by blast
  have f: "filter (key_matches (trim name) (trim cntry)) t2 = [row]"
    by (rule filter_unique_key[OF u2 row(1) row(2)])
  have s1: "snd (setCachedEnrichment now1 name cntry (Obj kvs1) src1 tbl) = t1"
    by (simp add: setCachedEnrichment_def c1 t1_def Let_def)
  have s2: "setCachedEnrichment now2 name cntry (Obj kvs2) src2 t1 = (Some row, t2)"
    using f by (simp add: setCachedEnrichment_def c2 t2_def e2_def Let_def single_def)
  show ?thesis
    unfolding s1 s2 using f row c2 by (intro exI[of _ row]) (simp add: e2_def cacheEntry_def)
qed

theorem setCachedEnrichment_second_write_wins_witness:
  "unique_keys []
   \<and> (\<exists>row. filter (key_matches (trim ''MIT'') (trim ''USA''))
                 (snd (setCachedEnrichment 2 ''MIT'' ''USA'' (Obj [(''city'', Str ''Cambridge'')]) ''LLAMA''
                        (snd (setCachedEnrichment 1 ''MIT'' ''USA'' (Obj [(''name'', Str ''MIT'')]) ''GEMINI'' [])))) = [row]
           \<and> enriched_data row = Obj [(''city'', Str ''Cambridge'')]
           \<and> source row = ''LLAMA'' \<and> created_at row = 2 \<and> access_count row = 1 \<and> is_verified row = False)"
proof -
  have u: "unique_keys []" by (simp add: unique_keys_def)
  show ?thesis
    using u setCachedEnrichment_second_write_wins[OF u, of "''MIT''" "''USA''" 2 "[(''city'', Str ''Cambridge'')]" "''LLAMA''" 1 "[(''name'', Str ''MIT'')]" "''GEMINI''"]
    by blast
qed

subsection \<open>Key normalisation\<close>

lemma upsert_other_key:
  assumes "(n, c) \<noteq> (university_name e, country e)"
  shows "filter (key_matches n c) (upsert e tbl) = filter (key_matches n c) tbl"
proof -
  have m: "filter (key_matches n c)
             (map (\<lambda>r. if key_matches (university_name e) (country e) r then write_entry e r else r) xs)
           = filter (key_matches n c) xs" for xs
    using assms by (induction xs) (auto simp: key_matches_def)
  have n: "\<not> key_matches n c (e\<lparr>row_id := i, verified_by_user_id := None, verified_at := None\<rparr>)" for i
    using assms by (auto simp: key_matches_def)
  show ?thesis unfolding upsert_def using m n by simp
qed

text \<open>
  C3, as stated, fails: the key is trimmed and not case-folded, and the store compares with
  exact equality. A record stored under \<^verbatim>\<open>MIT\<close> is a miss under \<^verbatim>\<open>mit\<close>.
\<close>

theorem lookup_is_case_sensitive_counterexample:
  "fst (getCachedEnrichment (\<lambda>r. r) 0 ''mit'' ''USA''
          (snd (setCachedEnrichment 0 ''MIT'' ''USA'' (Obj [(''name'', Str ''MIT'')]) ''AI'' []))) = None"
  by (simp add: setCachedEnrichment_def calculateConfidenceScore_def sourceScore_def sourceScores_def
      object_prototype_names_def Let_def upsert_def cacheEntry_def getCachedEnrichment_def key_matches_def
      trim_def is_space_def single_def)

text \<open>
  C3, amended. Lookup and store normalise the key by trimming white space only. After a
  store, a lookup whose name and country differ from the stored ones only in leading or
  trailing white space finds the stored record: within the record's TTL (14 days for source
  \<^verbatim>\<open>MANUAL\<close>, 7 days otherwise, the record being unverified) it is a hit, the same as under
  the stored spelling, and gives the stored payload's fields; beyond the TTL it is a miss.
  A lookup whose trimmed name or country differs from the stored one in anything else,
  letter case included, does not find the stored record: it answers as it did before the
  store, and is a miss unless another record is stored under exactly that spelling.
\<close>

theorem lookup_after_store_trims_key:
  assumes uniq: "unique_keys tbl"
  shows "(trim name' = trim name \<and> trim cntry' = trim cntry \<longrightarrow>
            fst (getCachedEnrichment bump now' name' cntry'
                   (snd (setCachedEnrichment now name cntry (Obj kvs) src tbl)))
              = fst (getCachedEnrichment bump now' name cntry
                   (snd (setCachedEnrichment now name cntry (Obj kvs) src tbl)))
          \<and> (now' - now \<le> (if src = ''MANUAL'' then days 14 else days 7) \<longrightarrow>
               (\<exists>v m. fst (getCachedEnrichment bump now' name' cntry'
                           (snd (setCachedEnrichment now name cntry (Obj kvs) src tbl))) = Some v
                    \<and> v = Obj (obj_put ''_cache_meta'' m kvs)
                    \<and> (\<forall>k. k \<noteq> ''_cache_meta'' \<longrightarrow> js_prop v k = map_of kvs k)))
          \<and> (now' - now > (if src = ''MANUAL'' then days 14 else days 7) \<longrightarrow>
               fst (getCachedEnrichment bump now' name' cntry'
                      (snd (setCachedEnrichment now name cntry (Obj kvs) src tbl))) = None))
       \<and> (trim name' \<noteq> trim name \<or> trim cntry' \<noteq> trim cntry \<longrightarrow>
            fst (getCachedEnrichment bump now' name' cntry'
                   (snd (setCachedEnrichment now name cntry (Obj kvs) src tbl)))
              = fst (getCachedEnrichment bump now' name' cntry' tbl)
          \<and> ((\<forall>r \<in> set tbl. \<not> key_matches (trim name') (trim cntry') r) \<longrightarrow>
               fst (getCachedEnrichment bump now' name' cntry'
                      (snd (setCachedEnrichment now name cntry (Obj kvs) src tbl))) = None))"
proof -
  obtain c1 where c1: "calculateConfidenceScore (Obj kvs) src False = Inr c1"
    using score_of_object by blast
  define e where "e = cacheEntry now name cntry (Obj kvs) c1 src"
  define t1 where "t1 = upsert e tbl"
  have s1: "snd (setCachedEnrichment now name cntry (Obj kvs) src tbl) = t1"
    by (simp add: setCachedEnrichment_def c1 t1_def e_def Let_def)
  have u1: "unique_keys t1" unfolding t1_def by (rule upsert_unique[OF uniq])
  have k: "university_name e = trim name" "country e = trim cntry"
    by (simp_all add: e_def cacheEntry_def)
  obtain row where row: "row \<in> set t1" "key_matches (trim name) (trim cntry) row"
      "enriched_data row = enriched_data e" "created_at row = created_at e" "is_verified row = is_verified e"
      "source row = source e"
    using upsert_member[of e tbl] unfolding t1_def k by blast
  have sel: "single (filter (key_matches (trim name) (trim cntry)) t1) = Some row"
    using filter_unique_key[OF u1 row(1) row(2)] by (simp add: single_def)
  have ttl: "cache_ttl row = (if src = ''MANUAL'' then days 14 else days 7)"
    using row(5,6) by (simp add: cache_ttl_def e_def cacheEntry_def days_def CACHE_TTL_MANUAL_def CACHE_TTL_AI_ENRICHED_def)
  have created: "created_at row = now" using row(4) by (simp add: e_def cacheEntry_def)
  have payload: "enriched_data row = Obj kvs" using row(3) by (simp add: e_def cacheEntry_def)
  have hit: "fst (getCachedEnrichment bump now' name cntry t1)
        = Some (Obj (obj_put ''_cache_meta'' (cache_meta row) kvs))"
    if "now' - now \<le> (if src = ''MANUAL'' then days 14 else days 7)"
    using that by (simp add: getCachedEnrichment_def sel Let_def ttl created payload)
  have late: "fst (getCachedEnrichment bump now' name cntry t1) = None"
    if "now' - now > (if src = ''MANUAL'' then days 14 else days 7)"
    using that by (simp add: getCachedEnrichment_def sel Let_def ttl created)
  have same: "getCachedEnrichment bump now' name' cntry' t1 = getCachedEnrichment bump now' name cntry t1"
    if "trim name' = trim name" "trim cntry' = trim cntry"
    by (simp add: getCachedEnrichment_def that)
  have first: "trim name' = trim name \<and> trim cntry' = trim cntry \<longrightarrow>
            fst (getCachedEnrichment bump now' name' cntry' t1) = fst (getCachedEnrichment bump now' name cntry t1)
          \<and> (now' - now \<le> (if src = ''MANUAL'' then days 14 else days 7) \<longrightarrow>
               (\<exists>v m. fst (getCachedEnrichment bump now' name' cntry' t1) = Some v
                    \<and> v = Obj (obj_put ''_cache_meta'' m kvs)
                    \<and> (\<forall>k. k \<noteq> ''_cache_meta'' \<longrightarrow> js_prop v k = map_of kvs k)))
          \<and> (now' - now > (if src = ''MANUAL'' then days 14 else days 7) \<longrightarrow>
               fst (getCachedEnrichment bump now' name' cntry' t1) = None)"
  proof (intro impI conjI)
    assume t: "trim name' = trim name \<and> trim cntry' = trim cntry"
    then show "fst (getCachedEnrichment bump now' name' cntry' t1) = fst (getCachedEnrichment bump now' name cntry t1)"
      using same by simp
  next
    assume t: "trim name' = trim name \<and> trim cntry' = trim cntry"
      and f: "now' - now \<le> (if src = ''MANUAL'' then days 14 else days 7)"
    have "fst (getCachedEnrichment bump now' name' cntry' t1) = Some (Obj (obj_put ''_cache_meta'' (cache_meta row) kvs))"
      using same t hit[OF f] by simp
    moreover have "\<forall>k. k \<noteq> ''_cache_meta'' \<longrightarrow>
        js_prop (Obj (obj_put ''_cache_meta'' (cache_meta row) kvs)) k = map_of kvs k"
      by (simp add: map_of_obj_put_other)
    ultimately show "\<exists>v m. fst (getCachedEnrichment bump now' name' cntry' t1) = Some v
                    \<and> v = Obj (obj_put ''_cache_meta'' m kvs)
                    \<and> (\<forall>k. k \<noteq> ''_cache_meta'' \<longrightarrow> js_prop v k = map_of kvs k)"
      by blast
  next
    assume t: "trim name' = trim name \<and> trim cntry' = trim cntry"
      and l: "now' - now > (if src = ''MANUAL'' then days 14 else days 7)"
    show "fst (getCachedEnrichment bump now' name' cntry' t1) = None"
      using same t late[OF l] by simp
  qed
  have second: "trim name' \<noteq> trim name \<or> trim cntry' \<noteq> trim cntry \<longrightarrow>
            fst (getCachedEnrichment bump now' name' cntry' t1) = fst (getCachedEnrichment bump now' name' cntry' tbl)
          \<and> ((\<forall>r \<in> set tbl. \<not> key_matches (trim name') (trim cntry') r) \<longrightarrow>
               fst (getCachedEnrichment bump now' name' cntry' t1) = None)"
  proof (intro impI conjI)
    assume d: "trim name' \<noteq> trim name \<or> trim cntry' \<noteq> trim cntry"
    then have ne: "(trim name', trim cntry') \<noteq> (university_name e, country e)" using k by auto
    have f: "filter (key_matches (trim name') (trim cntry')) t1 = filter (key_matches (trim name') (trim cntry')) tbl"
      unfolding t1_def by (rule upsert_other_key[OF ne])
    show "fst (getCachedEnrichment bump now' name' cntry' t1) = fst (getCachedEnrichment bump now' name' cntry' tbl)"
      by (simp add: getCachedEnrichment_def f Let_def split: option.splits)
    assume none: "\<forall>r \<in> set tbl. \<not> key_matches (trim name') (trim cntry') r"
    have "filter (key_matches (trim name') (trim cntry')) tbl = []" using none by (rule filter_no_key)
    then show "fst (getCachedEnrichment bump now' name' cntry' t1) = None"
      by (simp add: getCachedEnrichment_def f single_def)
  qed
  show ?thesis unfolding s1 using first second by blast
qed

theorem lookup_after_store_trims_key_witness:
  "unique_keys []
   \<and> trim ''  MIT'' = trim ''MIT '' \<and> trim ''USA '' = trim ''USA''
   \<and> days 10 - 0 \<le> (if ''MANUAL'' = ''MANUAL'' then days 14 else days 7)
   \<and> fst (getCachedEnrichment (\<lambda>r. r) (days 10) ''  MIT'' ''USA ''
               (snd (setCachedEnrichment 0 ''MIT '' ''USA'' (Obj [(''name'', Str ''MIT'')]) ''MANUAL'' []))) \<noteq> None
   \<and> days 15 - 0 > (if ''MANUAL'' = ''MANUAL'' then days 14 else days 7)
   \<and> fst (getCachedEnrichment (\<lambda>r. r) (days 15) ''  MIT'' ''USA ''
               (snd (setCachedEnrichment 0 ''MIT '' ''USA'' (Obj [(''name'', Str ''MIT'')]) ''MANUAL'' []))) = None
   \<and> trim ''mit'' \<noteq> trim ''MIT ''
   \<and> fst (getCachedEnrichment (\<lambda>r. r) (days 10) ''mit'' ''USA ''
               (snd (setCachedEnrichment 0 ''MIT '' ''USA'' (Obj [(''name'', Str ''MIT'')]) ''MANUAL'' []))) = None"
proof -
  have u: "unique_keys []" by (simp add: unique_keys_def)
  have n: "trim ''  MIT'' = trim ''MIT ''" by (simp add: trim_def is_space_def)
  have c: "trim ''USA '' = trim ''USA''" by (simp add: trim_def is_space_def)
  have f: "days 10 - 0 \<le> (if ''MANUAL'' = ''MANUAL'' then days 14 else days 7)" by (simp add: days_def)
  have l: "days 15 - 0 > (if ''MANUAL'' = ''MANUAL'' then days 14 else days 7)" by (simp add: days_def)
  have d: "trim ''mit'' \<noteq> trim ''MIT ''" by (simp add: trim_def is_space_def)
  note T1 = lookup_after_store_trims_key[OF u, of "''  MIT''" "''MIT ''" "''USA ''" "''USA''" "\<lambda>r. r" "days 10" 0
      "[(''name'', Str ''MIT'')]" "''MANUAL''"]
  note T2 = lookup_after_store_trims_key[OF u, of "''  MIT''" "''MIT ''" "''USA ''" "''USA''" "\<lambda>r. r" "days 15" 0
      "[(''name'', Str ''MIT'')]" "''MANUAL''"]
  note T3 = lookup_after_store_trims_key[OF u, of "''mit''" "''MIT ''" "''USA ''" "''USA''" "\<lambda>r. r" "days 10" 0
      "[(''name'', Str ''MIT'')]" "''MANUAL''"]
  from T1 n c f obtain v where "fst (getCachedEnrichment (\<lambda>r. r) (days 10) ''  MIT'' ''USA ''
               (snd (setCachedEnrichment 0 ''MIT '' ''USA'' (Obj [(''name'', Str ''MIT'')]) ''MANUAL'' []))) = Some v"
    by blast
  then have h: "fst (getCachedEnrichment (\<lambda>r. r) (days 10) ''  MIT'' ''USA ''
               (snd (setCachedEnrichment 0 ''MIT '' ''USA'' (Obj [(''name'', Str ''MIT'')]) ''MANUAL'' []))) \<noteq> None"
    by simp
  from T2 n c l have m: "fst (getCachedEnrichment (\<lambda>r. r) (days 15) ''  MIT'' ''USA ''
               (snd (setCachedEnrichment 0 ''MIT '' ''USA'' (Obj [(''name'', Str ''MIT'')]) ''MANUAL'' []))) = None"
    by blast
  have e: "\<forall>r \<in> set []. \<not> key_matches (trim ''mit'') (trim ''USA '') r" by simp
  from T3 d e have o: "fst (getCachedEnrichment (\<lambda>r. r) (days 10) ''mit'' ''USA ''
               (snd (setCachedEnrichment 0 ''MIT '' ''USA'' (Obj [(''name'', Str ''MIT'')]) ''MANUAL'' []))) = None"
    by blast
  show ?thesis using u n c f l d h m o by blast
qed

section \<open>Properties of the confidence score\<close>

text \<open>
  C2. For every payload, source tag and verification flag the score is to lie in [0,1].
  The table lookup \<^verbatim>\<open>sourceScores[source] || 0.5\<close> also finds the names an object literal
  inherits: for the source tag \<^verbatim>\<open>constructor\<close> it yields a function, the weighted sum is
  \<^verbatim>\<open>NaN\<close>, and rounding and clamping hand \<^verbatim>\<open>NaN\<close> on. The score of the empty payload
  under that source is \<^verbatim>\<open>NaN\<close>, not a value in [0,1].
\<close>

theorem score_of_inherited_source_is_NaN:
  "calculateConfidenceScore (Obj []) ''constructor'' False = Inr NaN"
  by (simp add: calculateConfidenceScore_def sourceScore_def sourceScores_def object_prototype_names_def Let_def)


text \<open>
  For every other source tag and every payload other than \<^verbatim>\<open>null\<close> the score is a number
  of hundredths between 0.25 and 1; the empty payload under a source outside the table gives
  0.25, the least of them; a payload with all seven required fields truthy, source
  \<^verbatim>\<open>MANUAL\<close> and verification true gives 0.96.
\<close>

lemma sourceScore_bounds:
  assumes "sourceScore src = Some s"
  shows "1/2 \<le> s \<and> s \<le> 1"
proof (cases "map_of sourceScores src")
  case None
  then have "s = 1/2" using assms by (simp add: sourceScore_def split: if_splits)
  then show ?thesis by simp
next
  case (Some x)
  then have "s = x" using assms by (simp add: sourceScore_def)
  moreover have "(src, x) \<in> set sourceScores" using Some by (rule map_of_SomeD)
  then have "x \<in> {1, 85/100, 75/100, 65/100, 70/100}" unfolding sourceScores_def by auto
  ultimately show ?thesis by auto
qed

lemma sourceScore_known:
  assumes "src \<notin> set object_prototype_names"
  shows "\<exists>s. sourceScore src = Some s"
proof (cases "map_of sourceScores src")
  case None
  then have "sourceScore src = Some (1/2)" using assms by (simp add: sourceScore_def)
  then show ?thesis by blast
next
  case (Some x)
  then have "sourceScore src = Some x" by (simp add: sourceScore_def)
  then show ?thesis by blast
qed

lemma length_requiredFields: "length requiredFields = 7"
  by (simp add: requiredFields_def)

lemma presentFields_le: "presentFields d \<le> 7"
proof -
  have "presentFields d \<le> length requiredFields" unfolding presentFields_def by (rule length_filter_le)
  then show ?thesis by (simp only: length_requiredFields)
qed


lemma score_eq:
  "d \<noteq> Null \<Longrightarrow> sourceScore src = Some s \<Longrightarrow>
   calculateConfidenceScore d src v = Inr (Num (min 1 (max 0 (rat_of_int (Math_round (weighted (presentFields d) s v * 100)) / 100))))"
  by (simp add: calculateConfidenceScore_def Let_def weighted_def length_requiredFields)

lemma weighted_bounds:
  assumes "k \<le> 7" "1/2 \<le> s" "s \<le> 1"
  shows "25/100 \<le> weighted k s v" "weighted k s v \<le> 1"
proof -
  have k: "0 \<le> rat_of_nat k / 7" "rat_of_nat k / 7 \<le> 1" using assms(1) by simp_all
  show "25/100 \<le> weighted k s v" using k assms by (simp add: weighted_def)
  show "weighted k s v \<le> 1" using k assms by (simp add: weighted_def)
qed

lemma Math_round_mono: "x \<le> y \<Longrightarrow> Math_round x \<le> Math_round y"
  by (simp add: Math_round_def floor_mono)

lemma Math_round_int: "Math_round (rat_of_int n) = n"
  unfolding Math_round_def by linarith

lemma round_bounds:
  assumes "25/100 \<le> w" "w \<le> 1"
  shows "25 \<le> Math_round (w * 100)" "Math_round (w * 100) \<le> 100"
proof -
  have "Math_round (rat_of_int 25) \<le> Math_round (w * 100)" using assms by (intro Math_round_mono) simp
  then show "25 \<le> Math_round (w * 100)" by (simp only: Math_round_int)
  have "Math_round (w * 100) \<le> Math_round (rat_of_int 100)" using assms by (intro Math_round_mono) simp
  then show "Math_round (w * 100) \<le> 100" by (simp only: Math_round_int)
qed

lemma score_two_decimals:
  assumes "d \<noteq> Null" "src \<notin> set object_prototype_names"
  shows "\<exists>n. calculateConfidenceScore d src v = Inr (Num (rat_of_int n / 100)) \<and> 25 \<le> n \<and> n \<le> 100"
proof -
  obtain s where s: "sourceScore src = Some s" using sourceScore_known[OF assms(2)] by blast
  define n where "n = Math_round (weighted (presentFields d) s v * 100)"
  have w: "25/100 \<le> weighted (presentFields d) s v" "weighted (presentFields d) s v \<le> 1"
    using weighted_bounds[OF presentFields_le] sourceScore_bounds[OF s] by blast+
  have n: "25 \<le> n" "n \<le> 100" unfolding n_def using round_bounds[OF w] by blast+
  have "0 \<le> rat_of_int n / 100" "rat_of_int n / 100 \<le> 1" using n by simp_all
  then have "min 1 (max 0 (rat_of_int n / 100)) = rat_of_int n / 100" by simp
  then show ?thesis using score_eq[OF assms(1) s, of v] n unfolding n_def by auto
qed

lemma score_minimum:
  assumes "map_of sourceScores unknown = None" "unknown \<notin> set object_prototype_names"
  shows "calculateConfidenceScore (Obj []) unknown False = Inr (Num (25/100))"
proof -
  have s: "sourceScore unknown = Some (1/2)" using assms by (simp add: sourceScore_def)
  have p: "presentFields (Obj []) = 0" by (simp add: presentFields_def field_present_def truthy_opt_def)
  have "Math_round (weighted 0 (1/2) False * 100) = Math_round (rat_of_int 25)" by (simp add: weighted_def)
  then have "Math_round (weighted 0 (1/2) False * 100) = 25" by (simp only: Math_round_int)
  then show ?thesis using score_eq[OF _ s, of "Obj []" False] by (simp add: p)
qed

lemma score_fully_populated:
  assumes "\<forall>f \<in> set requiredFields. \<exists>x. map_of kvs f = Some x \<and> truthy x"
  shows "calculateConfidenceScore (Obj kvs) ''MANUAL'' True = Inr (Num (96/100))"
proof -
  have "\<forall>f \<in> set requiredFields. field_present (js_prop (Obj kvs) f)"
  proof
    fix f assume "f \<in> set requiredFields"
    then obtain x where x: "map_of kvs f = Some x" "truthy x" using assms by blast
    then have "x \<noteq> Null" "x \<noteq> Str []" "x \<noteq> Num 0" by auto
    then show "field_present (js_prop (Obj kvs) f)" using x by (simp add: field_present_def truthy_opt_def)
  qed
  then have "filter (\<lambda>field. field_present (js_prop (Obj kvs) field)) requiredFields = requiredFields"
    by (simp add: filter_id_conv)
  then have p: "presentFields (Obj kvs) = 7" by (simp only: presentFields_def length_requiredFields)
  have s: "sourceScore ''MANUAL'' = Some (85/100)" by (simp add: sourceScore_def sourceScores_def)
  have "weighted 7 (85/100) True * 100 + 1/2 = rat_of_int 96" by (simp add: weighted_def)
  then have "Math_round (weighted 7 (85/100) True * 100) = 96"
    unfolding Math_round_def by (simp only: floor_of_int)
  then show ?thesis using score_eq[OF _ s, of "Obj kvs" True] by (simp add: p)
qed

section \<open>Properties of the router\<close>

lemma shuffled_empty [simp]: "shuffled env m ks = [] \<longleftrightarrow> ks = []"
proof -
  have "length (shuffled env m ks) = length ks" by (simp add: shuffled_def)
  then show ?thesis by (metis length_0_conv)
qed

lemma providers_invoked_simps [simp]:
  "providers_invoked [] = []"
  "providers_invoked (Invoke p # evs) = p # providers_invoked evs"
  "providers_invoked (Request p m k # evs) = providers_invoked evs"
  "providers_invoked (evs @ evs') = providers_invoked evs @ providers_invoked evs'"
  by (simp_all add: providers_invoked_def)

lemma gemini_attempt_error: "gemini_attempt env ms sp m k = Inl e \<Longrightarrow> message_of e = Inr ()"
  by (auto simp: gemini_attempt_def Let_def message_of_def split: sum.splits if_splits option.splits)

lemma groq_attempt_error: "groq_attempt env ms sp k = Inl e \<Longrightarrow> message_of e = Inr ()"
  by (auto simp: groq_attempt_def Let_def message_of_def split: sum.splits if_splits option.splits)

lemma gemini_keys_result:
  "gemini_keys env ms sp m ks le = (r, evs) \<Longrightarrow> ks \<noteq> [] \<or> has_message le \<Longrightarrow>
     providers_invoked evs = [] \<and> (\<forall>x. r = Inl x \<longrightarrow> has_message x)"
proof (induction ks arbitrary: le r evs)
  case Nil
  then show ?case by auto
next
  case (Cons k ks)
  show ?case
  proof (cases "gemini_attempt env ms sp m k")
    case (Inr resp)
    then show ?thesis using Cons.prems by auto
  next
    case (Inl e)
    obtain r' evs' where rec: "gemini_keys env ms sp m ks (Some e) = (r', evs')"
      by (cases "gemini_keys env ms sp m ks (Some e)")
    have "has_message (Some e)" using gemini_attempt_error[OF Inl] by (simp add: has_message_def)
    from Cons.IH[OF rec] this Cons.prems(1) Inl rec show ?thesis by auto
  qed
qed

lemma gemini_models_result:
  "gemini_models env ms sp models le = (r, evs) \<Longrightarrow> GEMINI_API_KEYS env \<noteq> [] \<Longrightarrow>
     models \<noteq> [] \<or> has_message le \<Longrightarrow>
     providers_invoked evs = [] \<and> (\<forall>x. r = Inl x \<longrightarrow> has_message x)"
proof (induction models arbitrary: le r evs)
  case Nil
  then show ?case by auto
next
  case (Cons m models)
  show ?case
  proof (cases "to_string_raises m")
    case True
    then have "r = Inl (Some (TypeError ''Cannot convert object to primitive value''))" "evs = []"
      using Cons.prems(1) by auto
    then show ?thesis by (simp add: has_message_def message_of_def)
  next
    case False
    obtain r1 evs1 where k: "gemini_keys env ms sp m (shuffled env m (GEMINI_API_KEYS env)) le = (r1, evs1)"
      by (cases "gemini_keys env ms sp m (shuffled env m (GEMINI_API_KEYS env)) le")
    have k1: "providers_invoked evs1 = []" "\<forall>x. r1 = Inl x \<longrightarrow> has_message x"
      using gemini_keys_result[OF k] Cons.prems(2) by auto
    show ?thesis
    proof (cases r1)
      case (Inr resp)
      then show ?thesis using Cons.prems(1) k k1 False by auto
    next
      case (Inl le')
      then have le': "has_message le'" using k1 by simp
      obtain r2 evs2 where rec: "gemini_models env ms sp models le' = (r2, evs2)"
        by (cases "gemini_models env ms sp models le'")
      from Cons.IH[OF rec Cons.prems(2)] le'
      have ih: "providers_invoked evs2 = []" "\<forall>x. r2 = Inl x \<longrightarrow> has_message x" by auto
      have "r = r2" "evs = evs1 @ evs2" using Cons.prems(1) k Inl rec False by auto
      then show ?thesis using ih k1 by auto
    qed
  qed
qed

lemma groq_keys_result:
  "groq_keys env ms sp ks le = (r, evs) \<Longrightarrow> ks \<noteq> [] \<or> has_message le \<Longrightarrow>
     providers_invoked evs = [] \<and> (\<forall>x. r = Inl x \<longrightarrow> has_message x)"
proof (induction ks arbitrary: le r evs)
  case Nil
  then show ?case by auto
next
  case (Cons k ks)
  show ?case
  proof (cases "groq_attempt env ms sp k")
    case (Inr resp)
    then show ?thesis using Cons.prems by auto
  next
    case (Inl e)
    obtain r' evs' where rec: "groq_keys env ms sp ks (Some e) = (r', evs')"
      by (cases "groq_keys env ms sp ks (Some e)")
    have "has_message (Some e)" using groq_attempt_error[OF Inl] by (simp add: has_message_def)
    from Cons.IH[OF rec] this Cons.prems(1) Inl rec show ?thesis by auto
  qed
qed

lemma throw_last_message: "has_message le \<Longrightarrow> message_of (throw_last le) = Inr ()"
  by (cases le) (simp_all add: has_message_def throw_last_def)

lemma callGemini_result:
  assumes c: "callGemini env ms sp pm = (r, evs)"
  shows "providers_invoked evs = [GEMINI] \<and> (\<forall>e. r = Inl e \<longrightarrow> message_of e = Inr ())"
proof (cases "GEMINI_API_KEYS env = []")
  case True
  then show ?thesis using c by (auto simp: callGemini_def Let_def message_of_def)
next
  case False
  define pmn where "pmn = (case pm of None \<Rightarrow> Str ''gemini-2.5-flash'' | Some m \<Rightarrow> m)"
  define models where "models = [pmn, if pmn = Str ''gemini-2.5-flash'' then Str ''gemini-2.5-flash-lite'' else Str ''gemini-2.5-flash'']"
  obtain r1 evs1 where g: "gemini_models env ms sp models None = (r1, evs1)"
    by (cases "gemini_models env ms sp models None")
  have res: "providers_invoked evs1 = []" "\<forall>x. r1 = Inl x \<longrightarrow> has_message x"
    using gemini_models_result[OF g False] by (auto simp: models_def)
  have unf: "callGemini env ms sp pm =
      (case gemini_models env ms sp models None of
         (Inr response, evs) \<Rightarrow> (Inr response, Invoke GEMINI # evs)
       | (Inl lastError, evs) \<Rightarrow> (Inl (throw_last lastError), Invoke GEMINI # evs))"
    using False by (simp add: callGemini_def Let_def pmn_def models_def)
  show ?thesis
  proof (cases r1)
    case (Inr resp)
    then show ?thesis using c g res unfolding unf by auto
  next
    case (Inl le)
    then have "message_of (throw_last le) = Inr ()" using res throw_last_message by blast
    then show ?thesis using c g res Inl unfolding unf by auto
  qed
qed

lemma callGroq_result:
  assumes c: "callGroq env ms sp = (r, evs)"
  shows "providers_invoked evs = [GROQ] \<and> (\<forall>e. r = Inl e \<longrightarrow> message_of e = Inr ())"
proof (cases "GROQ_API_KEYS env = []")
  case True
  then show ?thesis using c by (auto simp: callGroq_def message_of_def)
next
  case False
  obtain r1 evs1 where g: "groq_keys env ms sp (shuffled env (Str ''llama-3.3-70b-versatile'') (GROQ_API_KEYS env)) None = (r1, evs1)"
    by (cases "groq_keys env ms sp (shuffled env (Str ''llama-3.3-70b-versatile'') (GROQ_API_KEYS env)) None")
  have res: "providers_invoked evs1 = []" "\<forall>x. r1 = Inl x \<longrightarrow> has_message x"
    using groq_keys_result[OF g] False by auto
  show ?thesis
  proof (cases r1)
    case (Inr resp)
    then show ?thesis using c g res False by (auto simp: callGroq_def)
  next
    case (Inl le)
    then have "message_of (throw_last le) = Inr ()" using res throw_last_message by blast
    then show ?thesis using c g res Inl False by (auto simp: callGroq_def)
  qed
qed

lemma options_provider_value:
  "options \<noteq> Null \<Longrightarrow> \<exists>provider. options_provider options = Inr provider"
  by (cases options) (simp_all add: options_provider_def)

text \<open>What the router does once the provider has been read from the options.\<close>

lemma getLLMResponse_routes:
  assumes p: "options_provider (case options of None \<Rightarrow> default_options | Some x \<Rightarrow> x) = Inr provider"
    and g: "callGemini env messages systemPrompt (preferred_model options) = (rg, eg)"
    and q: "callGroq env messages systemPrompt = (rq, eq)"
  shows "getLLMResponse env messages systemPrompt options =
      (if provider = Str ''GEMINI''
       then (case rg of Inr response \<Rightarrow> (Inr response, eg)
             | Inl geminiError \<Rightarrow> (case rq of Inr response \<Rightarrow> (Inr response, eg @ eq) | Inl groqError \<Rightarrow> (Inr unavailable, eg @ eq)))
       else (case rq of Inr response \<Rightarrow> (Inr response, eq)
             | Inl groqError \<Rightarrow> (case rg of Inr response \<Rightarrow> (Inr response, eq @ eg) | Inl geminiError \<Rightarrow> (Inr unavailable, eq @ eg))))"
proof -
  note G = callGemini_result[OF g] and Q = callGroq_result[OF q]
  show ?thesis
    using G Q
    by (auto simp: getLLMResponse_def Let_def p g[unfolded preferred_model_def] q split: sum.splits)
qed

lemma getLLMResponse_providers:
  assumes nonnull: "options \<noteq> Some Null"
  shows "providers_invoked (snd (getLLMResponse env messages systemPrompt options)) = [preferred_provider options]
   \<or> providers_invoked (snd (getLLMResponse env messages systemPrompt options))
       = [preferred_provider options, other_provider (preferred_provider options)]"
proof -
  define opts where "opts = (case options of None \<Rightarrow> default_options | Some x \<Rightarrow> x)"
  have "opts \<noteq> Null" using nonnull by (cases options) (simp_all add: opts_def default_options_def)
  then obtain provider where p: "options_provider opts = Inr provider"
    using options_provider_value by blast
  obtain rg eg where g: "callGemini env messages systemPrompt (preferred_model options) = (rg, eg)"
    by (cases "callGemini env messages systemPrompt (preferred_model options)")
  obtain rq eq where q: "callGroq env messages systemPrompt = (rq, eq)"
    by (cases "callGroq env messages systemPrompt")
  note G = callGemini_result[OF g] and Q = callGroq_result[OF q]
  note unf = getLLMResponse_routes[OF p[unfolded opts_def] g q]
  show ?thesis
  proof (cases "provider = Str ''GEMINI''")
    case True
    then have pp: "preferred_provider options = GEMINI" using p by (simp add: preferred_provider_def opts_def)
    show ?thesis unfolding unf pp using True G Q by (auto split: sum.splits)
  next
    case False
    then have pp: "preferred_provider options = GROQ" using p by (simp add: preferred_provider_def opts_def)
    show ?thesis unfolding unf pp using False G Q by (auto split: sum.splits)
  qed
qed

lemma getLLMResponse_null: "getLLMResponse env messages systemPrompt (Some Null)
     = (Inl (TypeError ''Cannot read properties of null (reading 'provider')''), [])"
  by (simp add: getLLMResponse_def options_provider_def)

text \<open>
  C1, as stated, fails for one options input: \<^verbatim>\<open>null\<close>. The default parameter stands in for
  \<^verbatim>\<open>undefined\<close> only, \<^verbatim>\<open>typeof null\<close> is not \<^verbatim>\<open>'string'\<close>, and reading \<open>provider\<close> of
  \<^verbatim>\<open>null\<close> raises a \<^verbatim>\<open>TypeError\<close> before any \<^verbatim>\<open>try\<close> is entered: the call raises, and no
  provider is attempted.
\<close>

theorem getLLMResponse_null_options_raises_counterexample:
  "getLLMResponse all_down [(''user'', ''hello'')] ''You are a counsellor'' (Some Null)
     = (Inl (TypeError ''Cannot read properties of null (reading 'provider')''), [])"
  by (simp add: getLLMResponse_def options_provider_def)

text \<open>
  C1, amended. Whatever the messages and the system prompt, and whatever the options other
  than \<^verbatim>\<open>null\<close> (omitted, a string, an object, any other value), \<open>getLLMResponse\<close> returns
  a value and raises nothing, and it enters at most two provider clients: the preferred one, or
  the preferred one and then the other one, once. When the client of the preferred provider
  and the client of the other provider both fail (every model and key tried has failed, or
  no key is configured), the value returned is the fixed object \<open>unavailable\<close>, whose
  \<open>text\<close> is a non-empty string and whose \<open>error\<close> is true.
\<close>

theorem getLLMResponse_degrades_without_raising:
  assumes nonnull: "options \<noteq> Some Null"
  shows "(\<exists>response. fst (getLLMResponse env messages systemPrompt options) = Inr response)
   \<and> (providers_invoked (snd (getLLMResponse env messages systemPrompt options)) = [preferred_provider options]
      \<or> providers_invoked (snd (getLLMResponse env messages systemPrompt options))
          = [preferred_provider options, other_provider (preferred_provider options)])
   \<and> (isl (fst (callGemini env messages systemPrompt (preferred_model options)))
        \<and> isl (fst (callGroq env messages systemPrompt))
      \<longrightarrow> fst (getLLMResponse env messages systemPrompt options) = Inr unavailable
          \<and> providers_invoked (snd (getLLMResponse env messages systemPrompt options))
              = [preferred_provider options, other_provider (preferred_provider options)])
   \<and> (\<exists>t. js_prop unavailable ''text'' = Some (Str t) \<and> t \<noteq> [])
   \<and> js_prop unavailable ''error'' = Some (Bool True)"
proof -
  define opts where "opts = (case options of None \<Rightarrow> default_options | Some x \<Rightarrow> x)"
  have "opts \<noteq> Null" using nonnull by (cases options) (simp_all add: opts_def default_options_def)
  then obtain provider where p: "options_provider opts = Inr provider"
    using options_provider_value by blast
  obtain rg eg where g: "callGemini env messages systemPrompt (preferred_model options) = (rg, eg)"
    by (cases "callGemini env messages systemPrompt (preferred_model options)")
  obtain rq eq where q: "callGroq env messages systemPrompt = (rq, eq)"
    by (cases "callGroq env messages systemPrompt")
  note G = callGemini_result[OF g] and Q = callGroq_result[OF q]
  note unf = getLLMResponse_routes[OF p[unfolded opts_def] g q]
  have msg: "(\<exists>t. js_prop unavailable ''text'' = Some (Str t) \<and> t \<noteq> []) \<and> js_prop unavailable ''error'' = Some (Bool True)"
    by (simp add: unavailable_def)
  show ?thesis
  proof (cases "provider = Str ''GEMINI''")
    case True
    then have pp: "preferred_provider options = GEMINI" using p by (simp add: preferred_provider_def opts_def)
    show ?thesis unfolding unf pp g q using True G Q msg by (auto split: sum.splits)
  next
    case False
    then have pp: "preferred_provider options = GROQ" using p by (simp add: preferred_provider_def opts_def)
    show ?thesis unfolding unf pp g q using False G Q msg by (auto split: sum.splits)
  qed
qed

lemmas router_eval = getLLMResponse_def callGemini_def callGroq_def all_down_def shuffled_def
  gemini_attempt_def groq_attempt_def options_provider_def options_model_def default_options_def
  preferred_model_def preferred_provider_def throw_last_def message_of_def Let_def

theorem getLLMResponse_degrades_witness:
  "Some (Str ''GEMINI'') \<noteq> Some Null
   \<and> isl (fst (callGemini all_down [(''user'', ''hello'')] ''You are a counsellor'' (preferred_model (Some (Str ''GEMINI'')))))
   \<and> isl (fst (callGroq all_down [(''user'', ''hello'')] ''You are a counsellor''))
   \<and> fst (getLLMResponse all_down [(''user'', ''hello'')] ''You are a counsellor'' (Some (Str ''GEMINI''))) = Inr unavailable
   \<and> providers_invoked (snd (getLLMResponse all_down [(''user'', ''hello'')] ''You are a counsellor'' (Some (Str ''GEMINI''))))
       = [GEMINI, GROQ]
   \<and> fst (getLLMResponse all_down [(''user'', ''hello'')] ''You are a counsellor''
            (Some (Obj [(''model'', Obj [(''toString'', Num 1)])]))) = Inr unavailable
   \<and> providers_invoked (snd (getLLMResponse all_down [(''user'', ''hello'')] ''You are a counsellor''
            (Some (Obj [(''model'', Obj [(''toString'', Num 1)])]))))
       = [GROQ, GEMINI]"
proof -
  have n: "Some (Str ''GEMINI'') \<noteq> Some Null" "Some (Obj [(''model'', Obj [(''toString'', Num 1)])]) \<noteq> Some Null"
    by simp_all
  have a: "isl (fst (callGemini all_down [(''user'', ''hello'')] ''You are a counsellor'' (preferred_model (Some (Str ''GEMINI'')))))"
    by (simp add: router_eval)
  have b: "isl (fst (callGroq all_down [(''user'', ''hello'')] ''You are a counsellor''))"
    by (simp add: router_eval)
  have a2: "isl (fst (callGemini all_down [(''user'', ''hello'')] ''You are a counsellor''
              (preferred_model (Some (Obj [(''model'', Obj [(''toString'', Num 1)])])))))"
    by (simp add: router_eval)
  have p: "preferred_provider (Some (Str ''GEMINI'')) = GEMINI"
    "preferred_provider (Some (Obj [(''model'', Obj [(''toString'', Num 1)])])) = GROQ"
    by (simp_all add: router_eval)
  show ?thesis
    using n a b a2
      getLLMResponse_degrades_without_raising[OF n(1), of all_down "[(''user'', ''hello'')]" "''You are a counsellor''"]
      getLLMResponse_degrades_without_raising[OF n(2), of all_down "[(''user'', ''hello'')]" "''You are a counsellor''"]
    unfolding p by simp
qed

section \<open>Properties of the discovery analysis\<close>

subsection \<open>Reading the answer\<close>

lemma set_drop_newline: "set (drop_newline xs) \<subseteq> set xs"
  by (cases xs) auto

lemma set_strip_fence: "set (strip_fence pat s) \<subseteq> set s"
proof (induction pat s rule: strip_fence.induct)
  case (1 pat)
  then show ?case by simp
next
  case (2 pat c cs)
  show ?case
  proof (cases "pat \<noteq> [] \<and> prefix pat (c # cs)")
    case True
    have "set (strip_fence pat (drop_newline (drop (length pat) (c # cs)))) \<subseteq> set (drop_newline (drop (length pat) (c # cs)))"
      using 2(1) True by simp
    also have "\<dots> \<subseteq> set (drop (length pat) (c # cs))" by (rule set_drop_newline)
    also have "\<dots> \<subseteq> set (c # cs)" by (rule set_drop_subset)
    finally show ?thesis using True by simp
  next
    case False
    then show ?thesis using 2(2) by auto
  qed
qed

lemma set_trim: "set (trim s) \<subseteq> set s"
proof -
  have "set (dropWhile is_space (rev (dropWhile is_space s))) \<subseteq> set (rev (dropWhile is_space s))"
    by (rule set_dropWhileD[THEN subsetI]) 
  also have "\<dots> \<subseteq> set s" using set_dropWhileD by fastforce
  finally show ?thesis by (simp add: trim_def)
qed

lemma set_clean_markdown: "set (clean_markdown s) \<subseteq> set s"
  unfolding clean_markdown_def using set_trim set_strip_fence by (meson subset_trans)

lemma match_delimited_absent: "opening \<notin> set s \<Longrightarrow> match_delimited opening closing s = None"
proof -
  assume "opening \<notin> set s"
  then have "dropWhile (\<lambda>c. c \<noteq> opening) s = []" by (auto simp: dropWhile_eq_Nil_conv)
  then show ?thesis by (simp add: match_delimited_def)
qed

lemma clean_fenced_example: "clean_markdown fenced_example = ''{\"a\":1,}''"
  by (simp add: fenced_example_def clean_markdown_def trim_def is_space_def)

lemma match_object_example: "match_delimited CHR ''{'' CHR ''}'' ''{\"a\":1,}'' = Some ''{\"a\":1,}''"
  by (simp add: match_delimited_def)

lemma repair_example:
  "trim (remove_comma_before CHR '']'' (remove_comma_before CHR ''}'' ''{\"a\":1,}'')) = ''{\"a\":1}''"
  by (simp add: trim_def is_space_def)

lemma parse_string_response:
  "parseDiscoveryResponse env (Str text) =
     (case match_delimited CHR ''{'' CHR ''}'' (clean_markdown text) of
        Some jsonMatch \<Rightarrow>
          (case JSON_parse env jsonMatch of
             Inr a \<Rightarrow> Inr a
           | Inl parseError \<Rightarrow>
               JSON_parse env (trim (remove_comma_before CHR '']'' (remove_comma_before CHR ''}'' jsonMatch))))
      | None \<Rightarrow> Inl (Error ''No JSON object found in response''))"
  unfolding parseDiscoveryResponse_def Let_def by (simp add: get_prop_def)

lemma parse_text_response:
  assumes "map_of kvs ''text'' = Some (Str text)" "text \<noteq> []"
    "\<not> truthy_opt (map_of kvs ''profile_fit'')" "\<not> truthy_opt (map_of kvs ''budget_analysis'')"
  shows "parseDiscoveryResponse env (Obj kvs) = parseDiscoveryResponse env (Str text)"
  using assms unfolding parseDiscoveryResponse_def Let_def by (simp add: get_prop_def truthy_opt_def)

text \<open>
  C7. For every \<^verbatim>\<open>JSON.parse\<close> that rejects \<^verbatim>\<open>{"a":1,}\<close> and reads \<^verbatim>\<open>{"a":1}\<close> as the object
  with \<open>a\<close> equal to 1, the parsing step of \<open>analyzeUniversityForDiscovery\<close>, given the fenced
  text \<open>fenced_example\<close> (as a string, or as the \<open>text\<close> of a response object), yields that
  object: fences stripped, trailing comma repaired before the second parse. Given a text
  without braces it yields the failure \<^verbatim>\<open>No JSON object found in response\<close>. Whenever the
  step fails on the response of the model, the caller returns the default analysis, leaves
  the store as it was, and raises nothing.
\<close>

theorem parseDiscoveryResponse_repairs_or_fails:
  assumes bad: "isl (JSON_parse (llm env) ''{\"a\":1,}'')"
    and good: "JSON_parse (llm env) ''{\"a\":1}'' = Inr (Obj [(''a'', Num 1)])"
  shows "parseDiscoveryResponse (llm env) (Str fenced_example) = Inr (Obj [(''a'', Num 1)])
       \<and> parseDiscoveryResponse (llm env)
             (Obj [(''text'', Str fenced_example), (''actions'', Arr []), (''_aiSource'', Str ''LLAMA'')])
           = Inr (Obj [(''a'', Num 1)])
       \<and> (\<forall>prose. CHR ''{'' \<notin> set prose \<and> CHR ''}'' \<notin> set prose \<longrightarrow>
             parseDiscoveryResponse (llm env) (Str prose) = Inl (Error ''No JSON object found in response'')
           \<and> (prose \<noteq> [] \<longrightarrow>
                parseDiscoveryResponse (llm env)
                  (Obj [(''text'', Str prose), (''actions'', Arr []), (''_aiSource'', Str ''LLAMA'')])
                  = Inl (Error ''No JSON object found in response'')))
       \<and> (\<forall>db now userId universityId profile u systemPrompt response evs failure.
             single (filter (\<lambda>x. uni_id x = universityId) (universities db)) = Some u
             \<and> buildDiscoveryPrompt env profile u = Inr systemPrompt
             \<and> getLLMResponse (llm env) [(''user'', ''Analyze '' @ uni_name u @ '' for discovery browsing'')]
                   systemPrompt (Some (Str ''GROQ'')) = (Inr response, evs)
             \<and> parseDiscoveryResponse (llm env) response = Inl failure \<longrightarrow>
             analyzeFresh env db now userId universityId profile = (getDefaultAnalysis, db, evs))"
proof -
  obtain e where e: "JSON_parse (llm env) ''{\"a\":1,}'' = Inl e"
    using bad by (cases "JSON_parse (llm env) ''{\"a\":1,}''") auto
  have s: "parseDiscoveryResponse (llm env) (Str fenced_example) = Inr (Obj [(''a'', Num 1)])"
    by (simp only: parse_string_response clean_fenced_example match_object_example option.case e sum.case
        repair_example good)
  have ne: "fenced_example \<noteq> []" by (simp add: fenced_example_def)
  have t: "parseDiscoveryResponse (llm env)
        (Obj [(''text'', Str fenced_example), (''actions'', Arr []), (''_aiSource'', Str ''LLAMA'')])
      = parseDiscoveryResponse (llm env) (Str fenced_example)"
    by (rule parse_text_response) (simp_all add: ne truthy_opt_def)
  have p: "parseDiscoveryResponse (llm env) (Str prose) = Inl (Error ''No JSON object found in response'')"
    if "CHR ''{'' \<notin> set prose" for prose
  proof -
    have "CHR ''{'' \<notin> set (clean_markdown prose)" using that set_clean_markdown by blast
    then show ?thesis by (simp add: parse_string_response match_delimited_absent)
  qed
  have q: "parseDiscoveryResponse (llm env)
        (Obj [(''text'', Str prose), (''actions'', Arr []), (''_aiSource'', Str ''LLAMA'')])
      = parseDiscoveryResponse (llm env) (Str prose)" if "prose \<noteq> []" for prose
    by (rule parse_text_response) (simp_all add: that truthy_opt_def)
  have caller: "analyzeFresh env db now userId universityId profile = (getDefaultAnalysis, db, evs)"
    if "single (filter (\<lambda>x. uni_id x = universityId) (universities db)) = Some u"
      "buildDiscoveryPrompt env profile u = Inr systemPrompt"
      "getLLMResponse (llm env) [(''user'', ''Analyze '' @ uni_name u @ '' for discovery browsing'')]
         systemPrompt (Some (Str ''GROQ'')) = (Inr response, evs)"
      "parseDiscoveryResponse (llm env) response = Inl failure"
    for db now userId universityId profile u systemPrompt response evs failure
    using that by (simp add: analyzeFresh_def Let_def)
  show ?thesis using s t p q caller by (simp del: split_paired_All)
qed

lemma json_parse_trailing_comma: "isl (json_parse ''{\"a\":1,}'')"
  by code_simp

lemma json_parse_repaired: "json_parse ''{\"a\":1}'' = Inr (Obj [(''a'', Num 1)])"
  by code_simp

theorem parseDiscoveryResponse_witness:
  "isl (JSON_parse (llm (sample_discovery_env ''ok'')) ''{\"a\":1,}'')
   \<and> JSON_parse (llm (sample_discovery_env ''ok'')) ''{\"a\":1}'' = Inr (Obj [(''a'', Num 1)])
   \<and> parseDiscoveryResponse (llm (sample_discovery_env ''ok'')) (Str fenced_example) = Inr (Obj [(''a'', Num 1)])
   \<and> CHR ''{'' \<notin> set ''I am sorry, I cannot help.'' \<and> CHR ''}'' \<notin> set ''I am sorry, I cannot help.''
   \<and> parseDiscoveryResponse (llm (sample_discovery_env ''ok'')) (Str ''I am sorry, I cannot help.'')
       = Inl (Error ''No JSON object found in response'')"
proof -
  have a: "isl (JSON_parse (llm (sample_discovery_env ''ok'')) ''{\"a\":1,}'')"
    using json_parse_trailing_comma by (simp add: sample_discovery_env_def groq_answers_def)
  have b: "JSON_parse (llm (sample_discovery_env ''ok'')) ''{\"a\":1}'' = Inr (Obj [(''a'', Num 1)])"
    using json_parse_repaired by (simp add: sample_discovery_env_def groq_answers_def)
  have c: "CHR ''{'' \<notin> set ''I am sorry, I cannot help.'' \<and> CHR ''}'' \<notin> set ''I am sorry, I cannot help.''"
    by simp
  show ?thesis
    using a b c parseDiscoveryResponse_repairs_or_fails[OF a b] by blast
qed


subsection \<open>The placeholder analysis\<close>





lemma without_analysis_fields [simp]:
  "profiles (without_analysis db u uni) = profiles db"
  "universities (without_analysis db u uni) = universities db"
  by (simp_all add: without_analysis_def)










section \<open>Properties of enrichUniversity\<close>

lemma enrichFresh_events:
  "snd (snd (enrichFresh env now name cntry tbl))
     = snd (getLLMResponse env [(''user'', ''Enrich data for '' @ name @ '' in '' @ cntry)]
             (enrichmentPrompt name cntry) (Some (Obj [(''provider'', Str ''GEMINI''), (''model'', Str ''gemini-2.5-flash-lite'')])))"
  unfolding enrichFresh_def Let_def by (auto split: prod.splits sum.splits)

lemma enrichFresh_invokes_gemini:
  "providers_invoked (snd (snd (enrichFresh env now name cntry tbl))) = [GEMINI]
   \<or> providers_invoked (snd (snd (enrichFresh env now name cntry tbl))) = [GEMINI, GROQ]"
proof -
  have p: "preferred_provider (Some (Obj [(''provider'', Str ''GEMINI''), (''model'', Str ''gemini-2.5-flash-lite'')])) = GEMINI"
    by (simp add: preferred_provider_def options_provider_def)
  have n: "Some (Obj [(''provider'', Str ''GEMINI''), (''model'', Str ''gemini-2.5-flash-lite'')]) \<noteq> Some Null"
    by simp
  show ?thesis
    unfolding enrichFresh_events
    using getLLMResponse_providers[OF n, of env "[(''user'', ''Enrich data for '' @ name @ '' in '' @ cntry)]"
        "enrichmentPrompt name cntry"]
    unfolding p by simp
qed

lemma enrichFresh_not_cached:
  "\<exists>m. js_prop (fst (enrichFresh env now name cntry tbl)) ''_cache_meta'' = Some m
       \<and> js_prop m ''cached'' = Some (Bool False)"
  unfolding enrichFresh_def Let_def
  by (auto simp: enrich_failure_def fresh_meta_def map_of_obj_put split: prod.splits sum.splits)

text \<open>
  C10, as stated, fails: the guard is \<^verbatim>\<open>cached && !cached.error\<close>, a test of truthiness. A
  cached payload whose \<open>error\<close> field holds the empty string (or \<^verbatim>\<open>null\<close>, \<^verbatim>\<open>false\<close>,
  0) is served as a hit, and the value returned with \<open>cached\<close> true has an \<open>error\<close> field.
\<close>

theorem cached_falsy_error_is_served_counterexample:
  "js_prop (fst (enrichUniversity all_down (\<lambda>r. r) 0 ''MIT'' ''USA'' [row_with_empty_error])) ''error'' = Some (Str '''')
   \<and> (\<exists>m. js_prop (fst (enrichUniversity all_down (\<lambda>r. r) 0 ''MIT'' ''USA'' [row_with_empty_error])) ''_cache_meta'' = Some m
          \<and> js_prop m ''cached'' = Some (Bool True))"
  by (simp add: enrichUniversity_def getCachedEnrichment_def row_with_empty_error_def cache_eval
      Let_def cache_meta_def truthy_opt_def)

text \<open>
  C10, amended. Every value \<open>enrichUniversity\<close> returns with \<open>_cache_meta.cached\<close> true has
  no truthy \<open>error\<close> field (the field is absent or falsy). Whenever the cache lookup returns
  a record whose \<open>error\<close> field is truthy, as the marker stored after a parse failure is, the
  cached value is passed over and the fresh enrichment runs: Gemini is asked, and Groq after
  it if Gemini fails.
\<close>

theorem enrichUniversity_never_serves_truthy_error:
  "(\<forall>m. js_prop (fst (enrichUniversity env bump now name cntry tbl)) ''_cache_meta'' = Some m
          \<and> js_prop m ''cached'' = Some (Bool True)
        \<longrightarrow> \<not> truthy_opt (js_prop (fst (enrichUniversity env bump now name cntry tbl)) ''error''))
   \<and> (\<forall>cached. fst (getCachedEnrichment bump now name cntry tbl) = Some cached
          \<and> truthy_opt (js_prop cached ''error'')
        \<longrightarrow> enrichUniversity env bump now name cntry tbl
              = enrichFresh env now name cntry (snd (getCachedEnrichment bump now name cntry tbl))
            \<and> (providers_invoked (snd (snd (enrichUniversity env bump now name cntry tbl))) = [GEMINI]
               \<or> providers_invoked (snd (snd (enrichUniversity env bump now name cntry tbl))) = [GEMINI, GROQ]))"
proof -
  obtain c tbl' where g: "getCachedEnrichment bump now name cntry tbl = (c, tbl')"
    by (cases "getCachedEnrichment bump now name cntry tbl")
  have fresh: "\<not> (js_prop (fst (enrichFresh env now name cntry tbl')) ''_cache_meta'' = Some m
                  \<and> js_prop m ''cached'' = Some (Bool True))" for m
    using enrichFresh_not_cached[of env now name cntry tbl'] by auto
  have first: "\<not> truthy_opt (js_prop (fst (enrichUniversity env bump now name cntry tbl)) ''error'')"
    if "js_prop (fst (enrichUniversity env bump now name cntry tbl)) ''_cache_meta'' = Some m"
       "js_prop m ''cached'' = Some (Bool True)" for m
  proof (cases c)
    case None
    then have "enrichUniversity env bump now name cntry tbl = enrichFresh env now name cntry tbl'"
      by (simp add: enrichUniversity_def g)
    then show ?thesis using that fresh by auto
  next
    case (Some cached)
    show ?thesis
    proof (cases "truthy_opt (js_prop cached ''error'')")
      case True
      then have "enrichUniversity env bump now name cntry tbl = enrichFresh env now name cntry tbl'"
        by (simp add: enrichUniversity_def g Some)
      then show ?thesis using that fresh by auto
    next
      case False
      then have "fst (enrichUniversity env bump now name cntry tbl) = cached"
        by (simp add: enrichUniversity_def g Some)
      then show ?thesis using False by simp
    qed
  qed
  have second: "enrichUniversity env bump now name cntry tbl = enrichFresh env now name cntry tbl'"
    if "c = Some cached" "truthy_opt (js_prop cached ''error'')" for cached
    using that by (simp add: enrichUniversity_def g)
  show ?thesis
    using first second enrichFresh_invokes_gemini[of env now name cntry tbl'] unfolding g
    by (auto simp del: split_paired_All)
qed

theorem enrichUniversity_never_serves_truthy_error_witness:
  "(\<exists>cached. fst (getCachedEnrichment (\<lambda>r. r) 0 ''MIT'' ''USA'' [row_with_parse_failure]) = Some cached
        \<and> truthy_opt (js_prop cached ''error''))
   \<and> enrichUniversity all_down (\<lambda>r. r) 0 ''MIT'' ''USA'' [row_with_parse_failure]
       = enrichFresh all_down 0 ''MIT'' ''USA'' (snd (getCachedEnrichment (\<lambda>r. r) 0 ''MIT'' ''USA'' [row_with_parse_failure]))
   \<and> providers_invoked (snd (snd (enrichUniversity all_down (\<lambda>r. r) 0 ''MIT'' ''USA'' [row_with_parse_failure])))
       = [GEMINI, GROQ]
   \<and> (\<exists>m. js_prop (fst (enrichUniversity all_down (\<lambda>r. r) 0 ''MIT'' ''USA'' [sample_row 1 ''MIT'' ''USA'' ''GEMINI'' 0 False])) ''_cache_meta'' = Some m
          \<and> js_prop m ''cached'' = Some (Bool True))
   \<and> \<not> truthy_opt (js_prop (fst (enrichUniversity all_down (\<lambda>r. r) 0 ''MIT'' ''USA'' [sample_row 1 ''MIT'' ''USA'' ''GEMINI'' 0 False])) ''error'')"
proof -
  have a: "\<exists>cached. fst (getCachedEnrichment (\<lambda>r. r) 0 ''MIT'' ''USA'' [row_with_parse_failure]) = Some cached
        \<and> truthy_opt (js_prop cached ''error'')"
    by (simp add: getCachedEnrichment_def row_with_parse_failure_def parse_failure_def cache_eval
        Let_def cache_meta_def truthy_opt_def)
  have b: "\<exists>m. js_prop (fst (enrichUniversity all_down (\<lambda>r. r) 0 ''MIT'' ''USA'' [sample_row 1 ''MIT'' ''USA'' ''GEMINI'' 0 False])) ''_cache_meta'' = Some m
          \<and> js_prop m ''cached'' = Some (Bool True)"
    by (simp add: enrichUniversity_def getCachedEnrichment_def cache_eval Let_def cache_meta_def truthy_opt_def)
  have ev: "providers_invoked (snd (getLLMResponse all_down [(''user'', ''Enrich data for '' @ ''MIT'' @ '' in '' @ ''USA'')]
             (enrichmentPrompt ''MIT'' ''USA'') (Some (Obj [(''provider'', Str ''GEMINI''), (''model'', Str ''gemini-2.5-flash-lite'')])))) = [GEMINI, GROQ]"
    by (simp add: router_eval)
  note t1 = enrichUniversity_never_serves_truthy_error[of all_down "\<lambda>r. r" 0 "''MIT''" "''USA''" "[row_with_parse_failure]"]
  note t2 = enrichUniversity_never_serves_truthy_error[of all_down "\<lambda>r. r" 0 "''MIT''" "''USA''" "[sample_row 1 ''MIT'' ''USA'' ''GEMINI'' 0 False]"]
  from a t1 have c: "enrichUniversity all_down (\<lambda>r. r) 0 ''MIT'' ''USA'' [row_with_parse_failure]
       = enrichFresh all_down 0 ''MIT'' ''USA'' (snd (getCachedEnrichment (\<lambda>r. r) 0 ''MIT'' ''USA'' [row_with_parse_failure]))"
    by blast
  have d: "providers_invoked (snd (snd (enrichUniversity all_down (\<lambda>r. r) 0 ''MIT'' ''USA'' [row_with_parse_failure])))
       = [GEMINI, GROQ]"
    unfolding c enrichFresh_events using ev by simp
  from b t2 have e: "\<not> truthy_opt (js_prop (fst (enrichUniversity all_down (\<lambda>r. r) 0 ''MIT'' ''USA'' [sample_row 1 ''MIT'' ''USA'' ''GEMINI'' 0 False])) ''error'')"
    by blast
  show ?thesis using a b c d e by blast
qed

section \<open>Properties of the batches\<close>

subsection \<open>Batch enrichment\<close>







subsection \<open>The records and the upsert\<close>


















lemma distinct_some: "distinct xs \<Longrightarrow> distinct (filter P xs)"
  by simp


subsection \<open>Batch analysis\<close>










subsection \<open>One record for each entity\<close>










end
